theory Spec2Isabelle
  imports Complex_Main
begin

section \<open>JavaScript numbers\<close>

text \<open>
  The checkout page computes with JavaScript numbers: IEEE 754 double precision values.
  A finite double is modelled by the rational it denotes; \<open>-0\<close> and \<open>+0\<close> are identified,
  since \<open>toString\<close> and \<open>>=\<close>, the only observers the page applies, do not tell them
  apart. Every arithmetic operation returns the exact result rounded to the nearest
  double, ties to the even significand.
\<close>

datatype number = Num rat | PosInfinity | NegInfinity | NaN

text \<open>Number of binary digits of a positive integer.\<close>

function bit_length :: "int \<Rightarrow> int" where
  "bit_length n = (if n \<le> 0 then 0 else 1 + bit_length (n div 2))"
  by pat_completeness auto
termination
  by (relation "measure nat") auto

declare bit_length.simps [simp del]

text \<open>\<open>ilog2 x\<close> is the integer \<open>k\<close> with \<open>2^k \<le> x < 2^(k+1)\<close>, for \<open>0 < x\<close>.\<close>

definition ilog2 :: "rat \<Rightarrow> int" where
  "ilog2 x = (if 1 \<le> x then bit_length \<lfloor>x\<rfloor> - 1 else - bit_length (\<lceil>1 / x\<rceil> - 1))"

definition round_half_even :: "rat \<Rightarrow> int" where
  "round_half_even x =
     (let f = \<lfloor>x\<rfloor>; d = x - of_int f
      in if d < 1 / 2 then f else if 1 / 2 < d then f + 1
         else if even f then f else f + 1)"

text \<open>
  The exponent of the unit in the last place: a double has a significand of 53 bits, and
  below \<open>2^(-1022)\<close> the spacing stays \<open>2^(-1074)\<close> (subnormal numbers).
\<close>

definition ulp_exponent :: "rat \<Rightarrow> int" where
  "ulp_exponent x = max (ilog2 \<bar>x\<bar> - 52) (- 1074)"

definition fl :: "rat \<Rightarrow> rat" where
  "fl x = (if x = 0 then 0
           else of_int (round_half_even (x / 2 powi ulp_exponent x)) * 2 powi ulp_exponent x)"

text \<open>A rounded magnitude of \<open>2^1024\<close> or more overflows to an infinity.\<close>

definition to_number :: "rat \<Rightarrow> number" where
  "to_number x =
     (let y = fl x
      in if of_int (2 ^ 1024) \<le> y then PosInfinity
         else if y \<le> - of_int (2 ^ 1024) then NegInfinity else Num y)"

fun number_add :: "number \<Rightarrow> number \<Rightarrow> number" where
  "number_add (Num a) (Num b) = to_number (a + b)"
| "number_add NaN _ = NaN"
| "number_add _ NaN = NaN"
| "number_add PosInfinity NegInfinity = NaN"
| "number_add NegInfinity PosInfinity = NaN"
| "number_add PosInfinity _ = PosInfinity"
| "number_add _ PosInfinity = PosInfinity"
| "number_add NegInfinity _ = NegInfinity"
| "number_add _ NegInfinity = NegInfinity"

definition number_sgn_inf :: "bool \<Rightarrow> number" where
  "number_sgn_inf positive = (if positive then PosInfinity else NegInfinity)"

fun number_mul :: "number \<Rightarrow> number \<Rightarrow> number" where
  "number_mul (Num a) (Num b) = to_number (a * b)"
| "number_mul NaN _ = NaN"
| "number_mul _ NaN = NaN"
| "number_mul PosInfinity (Num b) = (if b = 0 then NaN else number_sgn_inf (0 < b))"
| "number_mul NegInfinity (Num b) = (if b = 0 then NaN else number_sgn_inf (b < 0))"
| "number_mul (Num a) PosInfinity = (if a = 0 then NaN else number_sgn_inf (0 < a))"
| "number_mul (Num a) NegInfinity = (if a = 0 then NaN else number_sgn_inf (a < 0))"
| "number_mul PosInfinity PosInfinity = PosInfinity"
| "number_mul NegInfinity NegInfinity = PosInfinity"
| "number_mul PosInfinity NegInfinity = NegInfinity"
| "number_mul NegInfinity PosInfinity = NegInfinity"

text \<open>The comparison \<open>a >= b\<close>: false as soon as one side is \<open>NaN\<close>.\<close>

fun number_ge :: "number \<Rightarrow> number \<Rightarrow> bool" where
  "number_ge (Num a) (Num b) = (b \<le> a)"
| "number_ge NaN _ = False"
| "number_ge _ NaN = False"
| "number_ge PosInfinity _ = True"
| "number_ge _ NegInfinity = True"
| "number_ge _ PosInfinity = False"
| "number_ge NegInfinity _ = False"

subsection \<open>\<open>parseFloat\<close>\<close>

text \<open>
  \<open>parseFloat\<close> skips leading white space and reads the longest prefix that is a decimal
  literal: an optional sign, then \<open>Infinity\<close> or digits with an optional fraction and an
  optional exponent. Without such a prefix the result is \<open>NaN\<close>. Strings are lists of
  code units below 256.
\<close>

definition is_digit :: "char \<Rightarrow> bool" where
  "is_digit c = (48 \<le> (of_char c :: nat) \<and> (of_char c :: nat) \<le> 57)"

definition is_white_space :: "char \<Rightarrow> bool" where
  "is_white_space c = ((of_char c :: nat) \<in> {9, 10, 11, 12, 13, 32, 160})"

fun digits_value :: "int \<Rightarrow> string \<Rightarrow> int" where
  "digits_value acc [] = acc"
| "digits_value acc (c # cs) = digits_value (10 * acc + (of_char c - 48)) cs"

definition exponent_part :: "string \<Rightarrow> int" where
  "exponent_part s =
     (case s of
        [] \<Rightarrow> 0
      | c # r \<Rightarrow>
          if c = CHR ''e'' \<or> c = CHR ''E'' then
            (case r of
               [] \<Rightarrow> 0
             | d # r' \<Rightarrow>
                 if d = CHR ''-'' then - digits_value 0 (takeWhile is_digit r')
                 else if d = CHR ''+'' then digits_value 0 (takeWhile is_digit r')
                 else digits_value 0 (takeWhile is_digit r))
          else 0)"

definition unsigned_literal :: "string \<Rightarrow> number option" where
  "unsigned_literal u =
     (if take 8 u = ''Infinity'' then Some PosInfinity
      else
        let ip = takeWhile is_digit u;
            r1 = dropWhile is_digit u;
            has_point = (r1 \<noteq> [] \<and> hd r1 = CHR ''.'');
            fp = (if has_point then takeWhile is_digit (tl r1) else []);
            r2 = (if has_point then dropWhile is_digit (tl r1) else r1)
        in if ip = [] \<and> fp = [] then None
           else Some (to_number (of_int (digits_value 0 (ip @ fp))
                        * 10 powi (exponent_part r2 - int (length fp)))))"

definition number_neg :: "number \<Rightarrow> number" where
  "number_neg n =
     (case n of Num a \<Rightarrow> Num (- a) | PosInfinity \<Rightarrow> NegInfinity
      | NegInfinity \<Rightarrow> PosInfinity | NaN \<Rightarrow> NaN)"

definition parseFloat :: "string \<Rightarrow> number" where
  "parseFloat s =
     (let t = dropWhile is_white_space s
      in case t of
           [] \<Rightarrow> NaN
         | c # r \<Rightarrow>
             if c = CHR ''-'' then
               (case unsigned_literal r of None \<Rightarrow> NaN | Some n \<Rightarrow> number_neg n)
             else if c = CHR ''+'' then
               (case unsigned_literal r of None \<Rightarrow> NaN | Some n \<Rightarrow> n)
             else (case unsigned_literal t of None \<Rightarrow> NaN | Some n \<Rightarrow> n))"


section \<open>Checkout page: pricing and the order that is posted\<close>

text \<open>
  A line of the cart as the checkout page reads it (\<open>CartItemWithProduct\<close>): the price is
  a decimal string, the quantity a number, and the product is joined in.
\<close>

record cart_product =
  cp_id :: int
  cp_name :: string

record cart_item =
  ci_id :: int
  ci_price :: string
  ci_quantity :: int
  ci_size :: string
  ci_color :: string
  ci_product :: cart_product

text \<open>The term \<open>parseFloat(item.price) * item.quantity\<close>.\<close>

definition line_total :: "cart_item \<Rightarrow> number" where
  "line_total item = number_mul (parseFloat (ci_price item)) (to_number (of_int (ci_quantity item)))"

record pricing =
  pr_subtotal :: number
  pr_shipping :: number
  pr_tax :: number
  pr_total :: number

text \<open>
  The four constants of lines 101 to 104 of the checkout page (the same four lines are
  repeated for the order summary): \<open>reduce\<close> is a left fold that starts from 0.
\<close>

definition calc_subtotal :: "cart_item list \<Rightarrow> number" where
  "calc_subtotal its = foldl (\<lambda>sum item. number_add sum (line_total item)) (Num 0) its"

definition calc_shipping :: "number \<Rightarrow> number" where
  "calc_shipping subtotal = (if number_ge subtotal (Num 50) then Num 0 else to_number (999 / 100))"

definition calc_tax :: "number \<Rightarrow> number" where
  "calc_tax subtotal = number_mul subtotal (to_number (8 / 100))"

definition calc_total :: "number \<Rightarrow> number \<Rightarrow> number \<Rightarrow> number" where
  "calc_total subtotal shipping tax = number_add (number_add subtotal shipping) tax"

definition price_cart :: "cart_item list \<Rightarrow> pricing" where
  "price_cart its =
     (let subtotal = calc_subtotal its;
          shipping = calc_shipping subtotal;
          tax = calc_tax subtotal;
          total = calc_total subtotal shipping tax
      in \<lparr>pr_subtotal = subtotal, pr_shipping = shipping, pr_tax = tax, pr_total = total\<rparr>)"

subsection \<open>The order data posted by \<open>createOrderMutation\<close>\<close>

record address =
  firstName :: string
  lastName :: string
  street :: string
  city :: string
  state :: string
  zipCode :: string
  country :: string
  phone :: "string option"

datatype payment_method = Card | Paypal

text \<open>The validated form (\<open>CheckoutFormData\<close>); an optional field is an option.\<close>

record checkout_form =
  shippingFirstName :: string
  shippingLastName :: string
  shippingStreet :: string
  shippingCity :: string
  shippingState :: string
  shippingZipCode :: string
  shippingCountry :: string
  shippingPhone :: "string option"
  sameAsShipping :: bool
  billingFirstName :: "string option"
  billingLastName :: "string option"
  billingStreet :: "string option"
  billingCity :: "string option"
  billingState :: "string option"
  billingZipCode :: "string option"
  billingCountry :: "string option"
  billingPhone :: "string option"
  paymentMethod :: payment_method

text \<open>\<open>x || ""\<close> on an optional string.\<close>

definition or_empty :: "string option \<Rightarrow> string" where
  "or_empty x = (case x of None \<Rightarrow> [] | Some s \<Rightarrow> s)"

text \<open>
  A line of the posted order. The page sends \<open>total\<close> and the four amounts of the order
  as \<open>n.toString()\<close>. That rendering is one-to-one on numbers (the shortest decimal that
  reads back as the same double, \<open>Infinity\<close>, \<open>-Infinity\<close> or \<open>NaN\<close>), so the model keeps
  the number itself in these fields.
\<close>

record order_item =
  oi_productId :: int
  oi_productName :: string
  oi_quantity :: int
  oi_size :: string
  oi_color :: string
  oi_price :: string
  oi_total :: number

record order_data =
  od_orderNumber :: string
  od_status :: string
  od_subtotal :: number
  od_tax :: number
  od_shipping :: number
  od_total :: number
  od_shippingAddress :: address
  od_billingAddress :: address
  od_paymentMethod :: payment_method
  od_paymentStatus :: string
  od_items :: "order_item list"

text \<open>
  The decimal digits of an integer, as a template literal renders the integral number
  \<open>Date.now()\<close> (a count of milliseconds, far below \<open>10^21\<close>, where the exponent notation
  would start).
\<close>

function digits_of :: "int \<Rightarrow> string" where
  "digits_of n =
     (if n < 10 then [char_of (48 + n)] else digits_of (n div 10) @ [char_of (48 + n mod 10)])"
  by pat_completeness auto
termination
  by (relation "measure nat") auto

declare digits_of.simps [simp del]

definition int_toString :: "int \<Rightarrow> string" where
  "int_toString n = (if n < 0 then CHR ''-'' # digits_of (- n) else digits_of n)"

definition order_number :: "int \<Rightarrow> string" where
  "order_number now = ''BP-'' @ int_toString now"

definition order_item_of :: "cart_item \<Rightarrow> order_item" where
  "order_item_of item =
     \<lparr>oi_productId = cp_id (ci_product item),
      oi_productName = cp_name (ci_product item),
      oi_quantity = ci_quantity item,
      oi_size = ci_size item,
      oi_color = ci_color item,
      oi_price = ci_price item,
      oi_total = line_total item\<rparr>"

definition shipping_address_of :: "checkout_form \<Rightarrow> address" where
  "shipping_address_of d =
     \<lparr>firstName = shippingFirstName d, lastName = shippingLastName d,
      street = shippingStreet d, city = shippingCity d, state = shippingState d,
      zipCode = shippingZipCode d, country = shippingCountry d, phone = shippingPhone d\<rparr>"

definition billing_address_of :: "checkout_form \<Rightarrow> address" where
  "billing_address_of d =
     (if sameAsShipping d then shipping_address_of d
      else \<lparr>firstName = or_empty (billingFirstName d), lastName = or_empty (billingLastName d),
            street = or_empty (billingStreet d), city = or_empty (billingCity d),
            state = or_empty (billingState d), zipCode = or_empty (billingZipCode d),
            country = or_empty (billingCountry d), phone = billingPhone d\<rparr>)"

text \<open>
  \<open>mutationFn\<close> of \<open>createOrderMutation\<close>: the body of \<open>POST /api/orders\<close>. Its inputs are
  the clock reading \<open>Date.now()\<close>, the cached cart (\<open>cartData?.items || []\<close>) and the form.
\<close>

definition createOrderMutation :: "int \<Rightarrow> cart_item list option \<Rightarrow> checkout_form \<Rightarrow> order_data" where
  "createOrderMutation now cartData d =
     (let its = (case cartData of None \<Rightarrow> [] | Some l \<Rightarrow> l);
          subtotal = calc_subtotal its;
          shipping = calc_shipping subtotal;
          tax = calc_tax subtotal;
          total = calc_total subtotal shipping tax
      in \<lparr>od_orderNumber = order_number now,
          od_status = ''pending'',
          od_subtotal = subtotal,
          od_tax = tax,
          od_shipping = shipping,
          od_total = total,
          od_shippingAddress = shipping_address_of d,
          od_billingAddress = billing_address_of d,
          od_paymentMethod = paymentMethod d,
          od_paymentStatus = ''pending'',
          od_items = map order_item_of its\<rparr>)"

section \<open>Admin dashboard: the status selector\<close>

text \<open>
  Each row of the orders table has a selector with the same five values, whatever the
  order's status is; choosing one runs \<open>updateOrderStatusMutation\<close>, which sends
  \<open>PATCH /api/admin/orders/:id/status\<close> with the chosen value and nothing else.
\<close>

record status_request =
  sr_orderId :: int
  sr_status :: string

definition status_options :: "string list" where
  "status_options = [''pending'', ''processing'', ''shipped'', ''delivered'', ''cancelled'']"

definition updateOrderStatusMutation :: "int \<Rightarrow> string \<Rightarrow> status_request" where
  "updateOrderStatusMutation orderId st = \<lparr>sr_orderId = orderId, sr_status = st\<rparr>"

section \<open>Product detail page: the quantity selector\<close>

text \<open>
  The component \<open>ProductDetail\<close> keeps the selected size, colour and quantity in React
  state (\<open>useState("")\<close>, \<open>useState("")\<close>, \<open>useState(1)\<close>). The product is the result of
  one query and is a parameter of the model; of its fields the page logic reads \<open>id\<close>,
  \<open>price\<close>, \<open>stock\<close>, \<open>sizes\<close> and \<open>colors\<close>.
\<close>

record product_view =
  pv_id :: int
  pv_price :: string
  pv_stock :: int
  pv_sizes :: "string list"
  pv_colors :: "string list"

text \<open>The body of the request \<open>POST /api/cart/add\<close> built by \<open>addToCartMutation\<close>.\<close>

record add_request =
  ar_productId :: int
  ar_quantity :: int
  ar_size :: string
  ar_color :: string
  ar_price :: string

record detail_state =
  selectedSize :: string
  selectedColor :: string
  quantity :: int
  isPending :: bool
  sent :: "add_request list"

datatype detail_event =
  ClickMinus
| ClickPlus
| ClickSize string
| ChooseColor string
| ClickAddToCart
| MutationSettled

definition detail_init :: detail_state where
  "detail_init = \<lparr>selectedSize = [], selectedColor = [], quantity = 1,
     isPending = False, sent = []\<rparr>"

text \<open>
  The effect that runs after a render: a missing size or colour is replaced by the first
  one the product offers.
\<close>

definition default_selection :: "product_view \<Rightarrow> detail_state \<Rightarrow> detail_state" where
  "default_selection p s =
     (let s1 = (if selectedSize s = [] \<and> pv_sizes p \<noteq> []
                then s\<lparr>selectedSize := hd (pv_sizes p)\<rparr> else s)
      in (if selectedColor s1 = [] \<and> pv_colors p \<noteq> []
          then s1\<lparr>selectedColor := hd (pv_colors p)\<rparr> else s1))"

text \<open>The \<open>disabled\<close> attributes of the three buttons.\<close>

definition minus_disabled :: "detail_state \<Rightarrow> bool" where
  "minus_disabled s = (quantity s \<le> 1)"

definition plus_disabled :: "product_view \<Rightarrow> detail_state \<Rightarrow> bool" where
  "plus_disabled p s = (quantity s \<ge> pv_stock p)"

definition add_disabled :: "product_view \<Rightarrow> detail_state \<Rightarrow> bool" where
  "add_disabled p s = (pv_stock p = 0 \<or> isPending s)"

text \<open>
  \<open>handleAddToCart\<close>: without a size or a colour only a toast is shown; otherwise the
  mutation starts and posts the current selection.
\<close>

definition handleAddToCart :: "product_view \<Rightarrow> detail_state \<Rightarrow> detail_state" where
  "handleAddToCart p s =
     (if selectedSize s = [] \<or> selectedColor s = [] then s
      else s\<lparr>isPending := True,
             sent := sent s @ [\<lparr>ar_productId = pv_id p, ar_quantity = quantity s,
                                 ar_size = selectedSize s, ar_color = selectedColor s,
                                 ar_price = pv_price p\<rparr>]\<rparr>)"

text \<open>A click on a disabled button does nothing; otherwise its handler runs.\<close>

fun detail_handle :: "product_view \<Rightarrow> detail_event \<Rightarrow> detail_state \<Rightarrow> detail_state" where
  "detail_handle p ClickMinus s =
     (if minus_disabled s then s else s\<lparr>quantity := max 1 (quantity s - 1)\<rparr>)"
| "detail_handle p ClickPlus s =
     (if plus_disabled p s then s else s\<lparr>quantity := quantity s + 1\<rparr>)"
| "detail_handle p (ClickSize z) s = s\<lparr>selectedSize := z\<rparr>"
| "detail_handle p (ChooseColor c) s = s\<lparr>selectedColor := c\<rparr>"
| "detail_handle p ClickAddToCart s =
     (if add_disabled p s then s else handleAddToCart p s)"
| "detail_handle p MutationSettled s = s\<lparr>isPending := False\<rparr>"

definition detail_step :: "product_view \<Rightarrow> detail_state \<Rightarrow> detail_event \<Rightarrow> detail_state" where
  "detail_step p s e = default_selection p (detail_handle p e s)"

definition detail_run :: "product_view \<Rightarrow> detail_event list \<Rightarrow> detail_state" where
  "detail_run p es = foldl (detail_step p) (default_selection p detail_init) es"

definition quantity_ok :: "product_view \<Rightarrow> detail_state \<Rightarrow> bool" where
  "quantity_ok p s =
     (1 \<le> quantity s \<and> (quantity s \<le> pv_stock p \<or> quantity s = 1) \<and>
      (\<forall>r \<in> set (sent s). 1 \<le> ar_quantity r \<and> ar_quantity r \<le> pv_stock p))"

section \<open>The order core behind the API\<close>

text \<open>
  Modelled from the spec: the handlers behind \<open>/api/orders\<close>, \<open>/api/admin/orders\<close> and
  \<open>/api/admin/products\<close> and the store they work on are not part of the sources, which
  hold the pages only. The definitions of this section follow sections 3, 4.3 and 4.4 of
  the specification; the pricing calculator and the copy of a cart line into an order
  line are the functions of the checkout page above.
\<close>

datatype order_status = Pending | Processing | Shipped | Delivered | Cancelled

datatype error = EmptyCart | InsufficientStock | IllegalTransition | NotFound

record product =
  p_name :: string
  p_price :: string
  p_stock :: int
  p_sizes :: "string list"
  p_colors :: "string list"
  p_isActive :: bool

record order =
  o_id :: nat
  o_userId :: int
  o_orderNumber :: string
  o_status :: order_status
  o_paymentStatus :: string
  o_items :: "order_item list"
  o_subtotal :: number
  o_tax :: number
  o_shipping :: number
  o_total :: number
  o_shippingAddress :: address
  o_billingAddress :: address
  o_paymentMethod :: payment_method

record store =
  products :: "int \<rightharpoonup> product"
  carts :: "int \<Rightarrow> cart_item list"
  orders :: "order list"

definition empty_store :: store where
  "empty_store = \<lparr>products = Map.empty, carts = (\<lambda>u. []), orders = []\<rparr>"

text \<open>
  Modelled from the spec: the state machine over the status,
  \<open>pending \<rightarrow> processing \<rightarrow> shipped \<rightarrow> delivered\<close>, with \<open>cancelled\<close> reachable from
  \<open>pending\<close> or \<open>processing\<close> only.
\<close>

fun legal_transition :: "order_status \<Rightarrow> order_status \<Rightarrow> bool" where
  "legal_transition Pending Processing = True"
| "legal_transition Processing Shipped = True"
| "legal_transition Shipped Delivered = True"
| "legal_transition Pending Cancelled = True"
| "legal_transition Processing Cancelled = True"
| "legal_transition _ _ = False"

text \<open>
  Modelled from the spec: \<open>reserveStock\<close> checks \<open>stock \<ge> quantity\<close> and decrements, and
  fails with \<open>InsufficientStock\<close> otherwise; \<open>releaseStock\<close> increments the stock back.
\<close>

definition reserveStock :: "int \<Rightarrow> int \<Rightarrow> (int \<rightharpoonup> product) \<Rightarrow> error + (int \<rightharpoonup> product)" where
  "reserveStock pid qty ps =
     (case ps pid of
        None \<Rightarrow> Inl NotFound
      | Some p \<Rightarrow>
          if qty \<le> p_stock p then Inr (ps(pid \<mapsto> p\<lparr>p_stock := p_stock p - qty\<rparr>))
          else Inl InsufficientStock)"

definition releaseStock :: "int \<Rightarrow> int \<Rightarrow> (int \<rightharpoonup> product) \<Rightarrow> (int \<rightharpoonup> product)" where
  "releaseStock pid qty ps =
     (case ps pid of
        None \<Rightarrow> ps
      | Some p \<Rightarrow> ps(pid \<mapsto> p\<lparr>p_stock := p_stock p + qty\<rparr>))"

text \<open>
  Modelled from the spec: the lines of an order are reserved one after the other; the
  first failure aborts the request, and since the caller keeps the old product table
  nothing stays decremented. On cancellation every line is released.
\<close>

fun reserve_all :: "cart_item list \<Rightarrow> (int \<rightharpoonup> product) \<Rightarrow> error + (int \<rightharpoonup> product)" where
  "reserve_all [] ps = Inr ps"
| "reserve_all (item # its) ps =
     (case reserveStock (cp_id (ci_product item)) (ci_quantity item) ps of
        Inl e \<Rightarrow> Inl e
      | Inr ps' \<Rightarrow> reserve_all its ps')"

fun release_all :: "order_item list \<Rightarrow> (int \<rightharpoonup> product) \<Rightarrow> (int \<rightharpoonup> product)" where
  "release_all [] ps = ps"
| "release_all (line # ls) ps = release_all ls (releaseStock (oi_productId line) (oi_quantity line) ps)"

text \<open>
  Modelled from the spec: \<open>createOrder\<close> reads the user's cart, fails with \<open>EmptyCart\<close>
  without items, prices the cart with the calculator, reserves the stock of every line,
  assigns the order number, persists the order with its copied lines and clears the cart.
  The request is the body the checkout page posts; of it only the addresses and the
  payment method are read.
\<close>

definition createOrder :: "int \<Rightarrow> int \<Rightarrow> order_data \<Rightarrow> store \<Rightarrow> error + store" where
  "createOrder now userId req s =
     (let its = carts s userId
      in if its = [] then Inl EmptyCart
         else
           (case reserve_all its (products s) of
              Inl e \<Rightarrow> Inl e
            | Inr ps \<Rightarrow>
                let pr = price_cart its;
                    ord = \<lparr>o_id = length (orders s),
                           o_userId = userId,
                           o_orderNumber = order_number now,
                           o_status = Pending,
                           o_paymentStatus = ''pending'',
                           o_items = map order_item_of its,
                           o_subtotal = pr_subtotal pr,
                           o_tax = pr_tax pr,
                           o_shipping = pr_shipping pr,
                           o_total = pr_total pr,
                           o_shippingAddress = od_shippingAddress req,
                           o_billingAddress = od_billingAddress req,
                           o_paymentMethod = od_paymentMethod req\<rparr>
                in Inr (s\<lparr>products := ps,
                          carts := (carts s)(userId := []),
                          orders := orders s @ [ord]\<rparr>)))"

text \<open>
  Modelled from the spec: \<open>updateStatus\<close> validates the transition against the state
  machine and fails with \<open>IllegalTransition\<close> otherwise; a transition to \<open>cancelled\<close>
  releases the stock of every line. Orders are never deleted, so the identifier of an
  order is its position in the list.
\<close>

definition updateStatus :: "nat \<Rightarrow> order_status \<Rightarrow> store \<Rightarrow> error + store" where
  "updateStatus orderId newStatus s =
     (if length (orders s) \<le> orderId then Inl NotFound
      else
        let ord = orders s ! orderId
        in if \<not> legal_transition (o_status ord) newStatus then Inl IllegalTransition
           else Inr (s\<lparr>orders := (orders s)[orderId := ord\<lparr>o_status := newStatus\<rparr>],
                       products := (if newStatus = Cancelled
                                    then release_all (o_items ord) (products s)
                                    else products s)\<rparr>))"

text \<open>
  Modelled from the spec: the operations of the core and of the catalogue administration.
  A change of a cart (add, update, remove) is any replacement of the user's lines; a
  failed operation leaves the store as it was.
\<close>

datatype operation =
  CreateOrder int int order_data
| UpdateStatus nat order_status
| SaveProduct int product
| DeleteProduct int
| SetCart int "cart_item list"

fun apply_operation :: "store \<Rightarrow> operation \<Rightarrow> store" where
  "apply_operation s (CreateOrder now userId req) =
     (case createOrder now userId req s of Inl e \<Rightarrow> s | Inr s' \<Rightarrow> s')"
| "apply_operation s (UpdateStatus orderId newStatus) =
     (case updateStatus orderId newStatus s of Inl e \<Rightarrow> s | Inr s' \<Rightarrow> s')"
| "apply_operation s (SaveProduct pid p) = s\<lparr>products := (products s)(pid \<mapsto> p)\<rparr>"
| "apply_operation s (DeleteProduct pid) = s\<lparr>products := (products s)(pid := None)\<rparr>"
| "apply_operation s (SetCart userId its) = s\<lparr>carts := (carts s)(userId := its)\<rparr>"

definition run :: "operation list \<Rightarrow> store \<Rightarrow> store" where
  "run ops s = foldl apply_operation s ops"

text \<open>
  The shipping, the tax and the total of a stored order are those that the calculator
  gives for its subtotal.
\<close>

definition amounts_consistent :: "order \<Rightarrow> bool" where
  "amounts_consistent ord =
     (o_shipping ord = calc_shipping (o_subtotal ord)
      \<and> o_tax ord = calc_tax (o_subtotal ord)
      \<and> o_total ord = calc_total (o_subtotal ord) (o_shipping ord) (o_tax ord))"

text \<open>Two versions of an order that differ in the status at most.\<close>

definition same_but_status :: "order \<Rightarrow> order \<Rightarrow> bool" where
  "same_but_status a b = (a\<lparr>o_status := o_status b\<rparr> = b)"

section \<open>The subtotal in the words of the specification\<close>






section \<open>Example inputs\<close>

text \<open>Concrete carts, products and stores on which the theorems below are instantiated.\<close>

definition demo_product :: product_view where
  "demo_product = \<lparr>pv_id = 7, pv_price = ''10.00'', pv_stock = 2,
     pv_sizes = [''S'', ''M''], pv_colors = [''Blue'']\<rparr>"

definition scenario_item :: cart_item where
  "scenario_item = \<lparr>ci_id = 1, ci_price = ''10.00'', ci_quantity = 2, ci_size = ''S'',
     ci_color = ''Blue'', ci_product = \<lparr>cp_id = 7, cp_name = ''Romper''\<rparr>\<rparr>"

definition demo_form :: checkout_form where
  "demo_form = \<lparr>shippingFirstName = ''Ada'', shippingLastName = ''Ray'',
     shippingStreet = ''1 Main St'', shippingCity = ''Dhaka'', shippingState = ''DH'',
     shippingZipCode = ''12345'', shippingCountry = ''United States'', shippingPhone = None,
     sameAsShipping = True, billingFirstName = None, billingLastName = None,
     billingStreet = None, billingCity = None, billingState = None, billingZipCode = None,
     billingCountry = Some ''United States'', billingPhone = None, paymentMethod = Card\<rparr>"

definition demo_catalog_product :: product where
  "demo_catalog_product = \<lparr>p_name = ''Romper'', p_price = ''10.00'', p_stock = 5,
     p_sizes = [''S'', ''M''], p_colors = [''Blue''], p_isActive = True\<rparr>"

text \<open>A store with one product and the scenario's line in the cart of user 1.\<close>

definition demo_store :: store where
  "demo_store = \<lparr>products = [7 \<mapsto> demo_catalog_product],
     carts = (\<lambda>u. if u = 1 then [scenario_item] else []), orders = []\<rparr>"

definition demo_order :: "order_status \<Rightarrow> order" where
  "demo_order st = \<lparr>o_id = 0, o_userId = 1, o_orderNumber = ''BP-1700000000000'',
     o_status = st, o_paymentStatus = ''pending'',
     o_items = [order_item_of scenario_item],
     o_subtotal = Num 20,
     o_tax = Num (3602879701896397 / 2251799813685248),
     o_shipping = Num (5623870034678907 / 562949953421312),
     o_total = Num (8891794514289624 / 281474976710656),
     o_shippingAddress = shipping_address_of demo_form,
     o_billingAddress = billing_address_of demo_form,
     o_paymentMethod = Card\<rparr>"

text \<open>The store after user 1 has ordered, with the order in a given status.\<close>

definition demo_store_ordered :: "order_status \<Rightarrow> store" where
  "demo_store_ordered st = \<lparr>products = [7 \<mapsto> demo_catalog_product\<lparr>p_stock := 3\<rparr>],
     carts = (\<lambda>u. []), orders = [demo_order st]\<rparr>"

text \<open>The dearest line a ten-digit price and a 32-bit quantity allow.\<close>

definition huge_item :: cart_item where
  "huge_item = \<lparr>ci_id = 2, ci_price = ''99999999.99'', ci_quantity = 2147483647,
     ci_size = ''S'', ci_color = ''Blue'', ci_product = \<lparr>cp_id = 7, cp_name = ''Romper''\<rparr>\<rparr>"

text \<open>
  User 1 orders the scenario's cart; afterwards the product is renamed, repriced and
  finally deleted.
\<close>

definition demo_ops :: "operation list" where
  "demo_ops = [SaveProduct 7 demo_catalog_product, SetCart 1 [scenario_item],
     CreateOrder 1700000000000 1
       (createOrderMutation 1700000000000 (Some [scenario_item]) demo_form)]"

definition demo_later :: "operation list" where
  "demo_later = [UpdateStatus 0 Processing,
     SaveProduct 7 (demo_catalog_product\<lparr>p_name := ''Renamed'', p_price := ''99.00''\<rparr>),
     DeleteProduct 7]"

text \<open>User 1 orders the dearest line from a product stocked to the limit.\<close>

definition huge_ops :: "operation list" where
  "huge_ops = [SaveProduct 7 (demo_catalog_product\<lparr>p_price := ''99999999.99'', p_stock := 2147483647\<rparr>),
     SetCart 1 [huge_item],
     CreateOrder 1700000000000 1
       (createOrderMutation 1700000000000 (Some [huge_item]) demo_form)]"




section \<open>Rounding to double precision\<close>

lemma bit_length_nonneg: "0 \<le> bit_length n"
  by (induction n rule: bit_length.induct) (subst bit_length.simps, simp)

lemma bit_length_pos: "0 < n \<Longrightarrow> 1 \<le> bit_length n"
  using bit_length_nonneg[of "n div 2"] by (subst bit_length.simps) simp

lemma bit_length_bounds:
  "0 < n \<Longrightarrow> 2 ^ nat (bit_length n - 1) \<le> n \<and> n < 2 ^ nat (bit_length n)"
proof (induction n rule: bit_length.induct)
  case (1 n)
  show ?case
  proof (cases "n = 1")
    case True
    have "bit_length 1 = 1"
      by (subst bit_length.simps, simp, subst bit_length.simps, simp)
    with True show ?thesis by simp
  next
    case False
    with 1(2) have h: "0 < n div 2" by simp
    then have ih: "2 ^ nat (bit_length (n div 2) - 1) \<le> n div 2"
      "n div 2 < 2 ^ nat (bit_length (n div 2))"
      using 1(1) 1(2) by simp_all
    have bl: "bit_length n = 1 + bit_length (n div 2)"
      using 1(2) by (subst bit_length.simps) simp
    have p: "1 \<le> bit_length (n div 2)" using h by (rule bit_length_pos)
    have e1: "nat (bit_length n - 1) = Suc (nat (bit_length (n div 2) - 1))"
      using p bl by simp
    have e2: "nat (bit_length n) = Suc (nat (bit_length (n div 2)))"
      using p bl by simp
    have "2 * 2 ^ nat (bit_length (n div 2) - 1) \<le> 2 * (n div 2)" using ih(1) by simp
    also have "\<dots> \<le> n" by simp
    finally have lower: "2 ^ nat (bit_length n - 1) \<le> n" by (simp add: e1)
    have "n div 2 + 1 \<le> 2 ^ nat (bit_length (n div 2))" using ih(2) by simp
    then have "2 * (n div 2) + 2 \<le> 2 * 2 ^ nat (bit_length (n div 2))" by simp
    moreover have "n < 2 * (n div 2) + 2" by presburger
    ultimately have upper: "n < 2 ^ nat (bit_length n)" by (simp add: e2)
    from lower upper show ?thesis ..
  qed
qed

lemma round_half_even_error: "\<bar>of_int (round_half_even z) - z\<bar> \<le> 1 / 2"
proof -
  have a: "of_int \<lfloor>z\<rfloor> \<le> z" and b: "z < of_int \<lfloor>z\<rfloor> + 1"
    by linarith+
  show ?thesis
    using a b by (auto simp: round_half_even_def Let_def abs_le_iff)
qed


lemma two_powi_nonneg: "0 \<le> k \<Longrightarrow> (2::rat) powi k = of_int (2 ^ nat k)"
  by (simp add: power_int_def)

lemma two_powi_neg: "0 \<le> k \<Longrightarrow> (2::rat) powi (- k) = 1 / of_int (2 ^ nat k)"
  by (simp add: power_int_minus two_powi_nonneg inverse_eq_divide)

lemma ilog2_bounds:
  assumes "0 < x"
  shows "2 powi ilog2 x \<le> x \<and> x < 2 powi (ilog2 x + 1)"
proof (cases "1 \<le> x")
  case True
  define n where "n = \<lfloor>x\<rfloor>"
  have n1: "1 \<le> n" using True by (simp add: n_def le_floor_iff)
  then have n0: "0 < n" by simp
  have k0: "0 \<le> bit_length n - 1" using bit_length_pos[OF n0] by simp
  have il: "ilog2 x = bit_length n - 1" using True by (simp add: ilog2_def n_def)
  have bb: "2 ^ nat (bit_length n - 1) \<le> n" "n < 2 ^ nat (bit_length n)"
    using bit_length_bounds[OF n0] by simp_all
  have "(2::rat) powi ilog2 x = of_int (2 ^ nat (bit_length n - 1))"
    by (simp only: il two_powi_nonneg[OF k0])
  also have "\<dots> \<le> of_int n" using bb(1) by (simp only: of_int_le_iff)
  also have "\<dots> \<le> x" by (simp add: n_def)
  finally have lower: "2 powi ilog2 x \<le> x" .
  have "x < of_int (n + 1)" by (simp add: n_def) linarith
  also have "\<dots> \<le> of_int (2 ^ nat (bit_length n))"
  proof -
    have "n + 1 \<le> 2 ^ nat (bit_length n)" using bb(2) by simp
    then show ?thesis by (simp only: of_int_le_iff)
  qed
  also have "\<dots> = (2::rat) powi (ilog2 x + 1)"
    using bit_length_nonneg[of n] by (simp add: il two_powi_nonneg)
  finally have upper: "x < 2 powi (ilog2 x + 1)" .
  from lower upper show ?thesis ..
next
  case False
  define y where "y = 1 / x"
  define m where "m = \<lceil>y\<rceil> - 1"
  define c where "c = bit_length m"
  have y1: "1 < y" using False assms by (simp add: y_def)
  have xy: "x = 1 / y" by (simp add: y_def)
  have "1 < \<lceil>y\<rceil>" using y1 by (simp add: less_ceiling_iff)
  then have m0: "0 < m" by (simp add: m_def)
  have c1: "1 \<le> c" unfolding c_def using m0 by (rule bit_length_pos)
  have bb: "2 ^ nat (c - 1) \<le> m" "m < 2 ^ nat c"
    using bit_length_bounds[OF m0] by (simp_all add: c_def)
  have il: "ilog2 x = - c" using False by (simp add: ilog2_def c_def m_def y_def)
  have "y \<le> of_int \<lceil>y\<rceil>" by simp
  also have "\<dots> = of_int (m + 1)" by (simp add: m_def)
  also have "\<dots> \<le> of_int (2 ^ nat c)"
  proof -
    have "m + 1 \<le> 2 ^ nat c" using bb(2) by simp
    then show ?thesis by (simp only: of_int_le_iff)
  qed
  finally have yle: "y \<le> of_int (2 ^ nat c)" .
  have "of_int (2 ^ nat (c - 1)) \<le> (of_int m :: rat)" using bb(1) by (simp only: of_int_le_iff)
  also have "\<dots> < y" by (simp add: m_def) linarith
  finally have ylt: "of_int (2 ^ nat (c - 1)) < y" .
  have p1: "(0::rat) < of_int (2 ^ nat c)" by simp
  have p2: "(0::rat) < of_int (2 ^ nat (c - 1))" by simp
  have "(2::rat) powi ilog2 x = 1 / of_int (2 ^ nat c)"
    using c1 by (simp only: il two_powi_neg)
  also have "\<dots> \<le> 1 / y"
    using yle y1 by (intro divide_left_mono) simp_all
  finally have lower: "2 powi ilog2 x \<le> x" by (simp add: xy)
  have "x = 1 / y" by (rule xy)
  also have "\<dots> < 1 / of_int (2 ^ nat (c - 1))"
    using ylt p2 y1 by (intro divide_strict_left_mono) simp_all
  also have "\<dots> = (2::rat) powi (- (c - 1))"
    using c1 by (subst two_powi_neg) simp_all
  also have "- (c - 1) = ilog2 x + 1" by (simp add: il)
  finally have upper: "x < 2 powi (ilog2 x + 1)" .
  from lower upper show ?thesis ..
qed

lemma ilog2_less:
  assumes "0 < x" and "x < 2 powi k"
  shows "ilog2 x < k"
proof (rule ccontr)
  assume "\<not> ilog2 x < k"
  then have "k \<le> ilog2 x" by simp
  then have "(2::rat) powi k \<le> 2 powi ilog2 x" by (intro power_int_increasing) simp_all
  also have "\<dots> \<le> x" using ilog2_bounds[OF assms(1)] by simp
  finally show False using assms(2) by simp
qed

text \<open>The rounding error of \<open>fl\<close> is at most half a unit in the last place.\<close>

lemma fl_error_ulp:
  "\<bar>fl x - x\<bar> \<le> 2 powi ulp_exponent x / 2"
proof (cases "x = 0")
  case True
  then show ?thesis by (simp add: fl_def)
next
  case False
  define u :: rat where "u = 2 powi ulp_exponent x"
  have u0: "0 < u" by (simp add: u_def)
  have "fl x - x = (of_int (round_half_even (x / u)) - x / u) * u"
    using False u0 by (simp add: fl_def u_def[symmetric] algebra_simps)
  then have "\<bar>fl x - x\<bar> = \<bar>of_int (round_half_even (x / u)) - x / u\<bar> * u"
    using u0 by (simp add: abs_mult)
  also have "\<dots> \<le> (1 / 2) * u"
    using round_half_even_error[of "x / u"] u0 by (intro mult_right_mono) simp_all
  finally show ?thesis by (simp add: u_def)
qed

lemma fl_error_bound:
  assumes "\<bar>x\<bar> < 2 powi k" and "- 1021 \<le> k"
  shows "\<bar>fl x - x\<bar> \<le> 2 powi (k - 54)"
proof (cases "x = 0")
  case True
  then show ?thesis by (simp add: fl_def)
next
  case False
  then have "0 < \<bar>x\<bar>" by simp
  then have "ilog2 \<bar>x\<bar> < k" using assms(1) by (rule ilog2_less)
  then have "ulp_exponent x \<le> k - 53" using assms(2) by (simp add: ulp_exponent_def)
  then have "(2::rat) powi ulp_exponent x \<le> 2 powi (k - 53)"
    by (intro power_int_increasing) simp_all
  then have "(2::rat) powi ulp_exponent x / 2 \<le> 2 powi (k - 53) / 2" by simp
  also have "\<dots> = 2 powi (k - 54)"
    using power_int_add[of "2::rat" "k - 54" 1] by simp
  finally show ?thesis using fl_error_ulp[of x] by simp
qed

lemma to_number_finite:
  assumes "\<bar>x\<bar> < 2 powi k" and "- 1021 \<le> k" and "k \<le> 1023"
  shows "to_number x = Num (fl x)" and "\<bar>fl x - x\<bar> \<le> 2 powi (k - 54)"
proof -
  show err: "\<bar>fl x - x\<bar> \<le> 2 powi (k - 54)"
    using assms(1,2) by (rule fl_error_bound)
  have "(2::rat) powi (k - 54) \<le> 2 powi k" by (intro power_int_increasing) simp_all
  with err assms(1) have "\<bar>fl x\<bar> < 2 powi k + 2 powi k" by linarith
  also have "\<dots> = 2 powi (k + 1)" using power_int_add[of "2::rat" k 1] by simp
  also have "\<dots> \<le> 2 powi 1024" using assms(3) by (intro power_int_increasing) simp_all
  also have "\<dots> = of_int (2 ^ 1024)" by simp
  finally have "\<bar>fl x\<bar> < of_int (2 ^ 1024)" .
  then show "to_number x = Num (fl x)"
    by (simp add: to_number_def Let_def abs_less_iff del: of_int_power of_int_numeral)
qed




section \<open>Properties of the pricing calculation\<close>

lemma calc_subtotal_Nil: "calc_subtotal [] = Num 0"
  by (simp add: calc_subtotal_def)

lemma calc_subtotal_snoc:
  "calc_subtotal (its @ [item]) = number_add (calc_subtotal its) (line_total item)"
  by (simp add: calc_subtotal_def)

lemma price_cart_fields:
  "pr_subtotal (price_cart its) = calc_subtotal its"
  "pr_shipping (price_cart its) = calc_shipping (calc_subtotal its)"
  "pr_tax (price_cart its) = calc_tax (calc_subtotal its)"
  "pr_total (price_cart its)
     = calc_total (calc_subtotal its) (calc_shipping (calc_subtotal its)) (calc_tax (calc_subtotal its))"
  by (simp_all add: price_cart_def Let_def)

lemma createOrderMutation_amounts:
  "od_subtotal (createOrderMutation now (Some its) d) = pr_subtotal (price_cart its)"
  "od_shipping (createOrderMutation now (Some its) d) = pr_shipping (price_cart its)"
  "od_tax (createOrderMutation now (Some its) d) = pr_tax (price_cart its)"
  "od_total (createOrderMutation now (Some its) d) = pr_total (price_cart its)"
  by (simp_all add: createOrderMutation_def price_cart_def Let_def)

text \<open>The doubles that the literals of the scenario denote.\<close>

lemma literal_20: "to_number 20 = Num 20"
  by code_simp

lemma literal_9_99: "to_number (999 / 100) = Num (5623870034678907 / 562949953421312)"
  by code_simp

lemma literal_0_08: "to_number (8 / 100) = Num (5764607523034235 / 72057594037927936)"
  by code_simp

lemma literal_1_60: "to_number (8 / 5) = Num (3602879701896397 / 2251799813685248)"
  by code_simp

lemma literal_31_59: "to_number (3159 / 100) = Num (8891794514289623 / 281474976710656)"
  by code_simp

lemma literal_31_590000000000003:
  "to_number (31590000000000003 / 1000000000000000) = Num (8891794514289624 / 281474976710656)"
  by code_simp

lemma scenario_line: "line_total scenario_item = Num 20"
  by code_simp

lemma scenario_subtotal: "calc_subtotal [scenario_item] = Num 20"
  unfolding calc_subtotal_def by (simp add: scenario_line) code_simp

lemma scenario_shipping: "calc_shipping (Num 20) = Num (5623870034678907 / 562949953421312)"
  by (simp add: calc_shipping_def literal_9_99)

lemma scenario_tax: "calc_tax (Num 20) = Num (3602879701896397 / 2251799813685248)"
  unfolding calc_tax_def literal_0_08 by code_simp

lemma scenario_total:
  "calc_total (Num 20) (Num (5623870034678907 / 562949953421312))
     (Num (3602879701896397 / 2251799813685248)) = Num (8891794514289624 / 281474976710656)"
  unfolding calc_total_def by code_simp

lemma scenario_pricing:
  "price_cart [scenario_item] =
     \<lparr>pr_subtotal = Num 20,
      pr_shipping = Num (5623870034678907 / 562949953421312),
      pr_tax = Num (3602879701896397 / 2251799813685248),
      pr_total = Num (8891794514289624 / 281474976710656)\<rparr>"
  by (simp add: price_cart_def Let_def scenario_subtotal scenario_shipping scenario_tax scenario_total)

text \<open>
  With a subtotal below \<open>2^40\<close> in magnitude no operation overflows, and the rounding
  errors of the two sums stay far below half a cent.
\<close>

lemma pricing_tolerance:
  assumes "\<bar>s\<bar> < 2 ^ 40"
  shows "\<exists>h x t. calc_shipping (Num s) = Num h \<and> calc_tax (Num s) = Num x
           \<and> calc_total (Num s) (Num h) (Num x) = Num t
           \<and> \<bar>t - (s + x + h)\<bar> \<le> 3 / 8192
           \<and> 0 \<le> h \<and> h \<le> 10 \<and> \<bar>x\<bar> < 2 ^ 41 \<and> \<bar>t\<bar> < 2 ^ 43"
proof -
  define c :: rat where "c = 5764607523034235 / 72057594037927936"
  define h :: rat where "h = (if 50 \<le> s then 0 else 5623870034678907 / 562949953421312)"
  define x where "x = fl (s * c)"
  define a where "a = fl (s + h)"
  define t where "t = fl (a + x)"
  have s40: "\<bar>s\<bar> < 1099511627776" using assms by simp
  have h_bounds: "0 \<le> h" "h \<le> 10" by (simp_all add: h_def)
  have ship: "calc_shipping (Num s) = Num h"
    by (simp add: calc_shipping_def literal_9_99 h_def)
  have sc: "\<bar>s * c\<bar> \<le> \<bar>s\<bar>"
  proof -
    have "\<bar>s * c\<bar> = \<bar>s\<bar> * c" by (simp add: abs_mult c_def)
    also have "\<dots> \<le> \<bar>s\<bar> * 1" by (intro mult_left_mono) (simp_all add: c_def)
    finally show ?thesis by simp
  qed
  have "\<bar>s * c\<bar> < 2 powi 40" using sc s40 by simp
  then have tx: "to_number (s * c) = Num x" and ex: "\<bar>x - s * c\<bar> \<le> 2 powi (40 - 54)"
    unfolding x_def by (rule to_number_finite; simp)+
  have tax: "calc_tax (Num s) = Num x"
    by (simp only: calc_tax_def literal_0_08 number_mul.simps c_def[symmetric] tx)
  have "\<bar>s + h\<bar> < 2 powi 41" using s40 h_bounds by simp
  then have ta: "to_number (s + h) = Num a" and ea: "\<bar>a - (s + h)\<bar> \<le> 2 powi (41 - 54)"
    unfolding a_def by (rule to_number_finite; simp)+
  have ex': "\<bar>x - s * c\<bar> \<le> 1" using ex by simp
  have ea': "\<bar>a - (s + h)\<bar> \<le> 1 / 8192" using ea by simp
  have xb: "\<bar>x\<bar> < 1099511627777"
    using s40 sc ex' unfolding abs_le_iff abs_less_iff by linarith
  have ab: "\<bar>a\<bar> < 1099511627787"
    using s40 h_bounds ea' unfolding abs_le_iff abs_less_iff by linarith
  have "\<bar>a + x\<bar> < 4398046511104"
    using xb ab unfolding abs_less_iff by linarith
  then have "\<bar>a + x\<bar> < 2 powi 42" by simp
  then have tt: "to_number (a + x) = Num t" and et: "\<bar>t - (a + x)\<bar> \<le> 2 powi (42 - 54)"
    unfolding t_def by (rule to_number_finite; simp)+
  have et': "\<bar>t - (a + x)\<bar> \<le> 1 / 4096" using et by simp
  have total: "calc_total (Num s) (Num h) (Num x) = Num t"
    by (simp add: calc_total_def ta tt)
  have close: "\<bar>t - (s + x + h)\<bar> \<le> 3 / 8192"
    using et' ea' unfolding abs_le_iff abs_less_iff by linarith
  have xb': "\<bar>x\<bar> < 2 ^ 41"
    using xb by simp
  have tb: "\<bar>t\<bar> < 2 ^ 43"
    using et' xb ab unfolding abs_le_iff abs_less_iff by simp
  from ship tax total close h_bounds xb' tb show ?thesis by blast
qed

text \<open>The cart of one line at the largest price and quantity.\<close>

lemma huge_line: "line_total huge_item = Num 214748364678525152"
  by code_simp

lemma huge_subtotal: "calc_subtotal [huge_item] = Num 214748364678525152"
  unfolding calc_subtotal_def by (simp add: huge_line) code_simp

lemma huge_tax: "calc_tax (Num 214748364678525152) = Num 17179869174282012"
  unfolding calc_tax_def literal_0_08 by code_simp

lemma huge_total:
  "calc_total (Num 214748364678525152) (Num 0) (Num 17179869174282012) = Num 231928233852807168"
  unfolding calc_total_def by code_simp

text \<open>
  Claim C1, as stated, at the cart of the scenario (one line, price 10.00, quantity 2):
  the subtotal is the double 20, the shipping the double 9.99 and the tax the double 1.6,
  but the total \<open>20 + 9.99 + 1.6\<close> is not the double 31.59.
\<close>

theorem pricing_scenario_total_is_not_31_59:
  "pr_subtotal (price_cart [scenario_item]) = to_number 20
   \<and> pr_shipping (price_cart [scenario_item]) = to_number (999 / 100)
   \<and> pr_tax (price_cart [scenario_item]) = to_number (160 / 100)
   \<and> pr_total (price_cart [scenario_item]) \<noteq> to_number (3159 / 100)"
  by (simp add: scenario_pricing literal_20 literal_9_99 literal_1_60 literal_31_59)

text \<open>
  Claim C1, amended. The pricing calculation is a function of the cart's lines, computed
  in double precision: the subtotal is 0 for no line and, line after line, the rounded sum
  of the subtotal so far and the rounded product of the parsed price and the quantity; the
  shipping is 0 when the subtotal is at least 50 and 9.99 otherwise; the tax is the rounded
  product of the subtotal and 0.08; the total is the subtotal plus the shipping, rounded,
  plus the tax, rounded. The order that the page posts carries these four amounts. For one
  line of price 10.00 and quantity 2 the subtotal is 20, the shipping 9.99, the tax 1.6 and
  the total the double 31.590000000000003, less than half a cent away from 31.59.
\<close>

theorem pricing_calculation:
  "pr_subtotal (price_cart []) = Num 0
   \<and> pr_subtotal (price_cart (its @ [item]))
       = number_add (pr_subtotal (price_cart its))
           (number_mul (parseFloat (ci_price item)) (to_number (of_int (ci_quantity item))))
   \<and> pr_shipping (price_cart its)
       = (if number_ge (pr_subtotal (price_cart its)) (Num 50) then Num 0
          else to_number (999 / 100))
   \<and> pr_tax (price_cart its) = number_mul (pr_subtotal (price_cart its)) (to_number (8 / 100))
   \<and> pr_total (price_cart its)
       = number_add (number_add (pr_subtotal (price_cart its)) (pr_shipping (price_cart its)))
           (pr_tax (price_cart its))
   \<and> od_subtotal (createOrderMutation now (Some its) d) = pr_subtotal (price_cart its)
   \<and> od_shipping (createOrderMutation now (Some its) d) = pr_shipping (price_cart its)
   \<and> od_tax (createOrderMutation now (Some its) d) = pr_tax (price_cart its)
   \<and> od_total (createOrderMutation now (Some its) d) = pr_total (price_cart its)
   \<and> price_cart [scenario_item] =
       \<lparr>pr_subtotal = to_number 20, pr_shipping = to_number (999 / 100),
        pr_tax = to_number (160 / 100),
        pr_total = to_number (31590000000000003 / 1000000000000000)\<rparr>
   \<and> pr_total (price_cart [scenario_item]) = Num (8891794514289624 / 281474976710656)
   \<and> \<bar>8891794514289624 / 281474976710656 - 3159 / 100\<bar> < (1 / 200 :: rat)"
proof -
  have scen: "price_cart [scenario_item] =
       \<lparr>pr_subtotal = to_number 20, pr_shipping = to_number (999 / 100),
        pr_tax = to_number (160 / 100),
        pr_total = to_number (31590000000000003 / 1000000000000000)\<rparr>"
    by (simp add: scenario_pricing literal_20 literal_9_99 literal_1_60 literal_31_590000000000003)
  have tot: "pr_total (price_cart [scenario_item]) = Num (8891794514289624 / 281474976710656)"
    by (simp add: scenario_pricing)
  have close: "\<bar>8891794514289624 / 281474976710656 - 3159 / 100\<bar> < (1 / 200 :: rat)"
    by simp
  show ?thesis
    unfolding createOrderMutation_amounts
    using scen tot close
    by (simp add: price_cart_fields calc_subtotal_Nil calc_subtotal_snoc line_total_def
        calc_shipping_def calc_tax_def calc_total_def)
qed

section \<open>Properties of the order number\<close>

lemma digits_value_append:
  "digits_value acc (xs @ ys) = digits_value (digits_value acc xs) ys"
  by (induction xs arbitrary: acc) simp_all

lemma digit_char_value: "0 \<le> d \<Longrightarrow> d < 10 \<Longrightarrow> of_char (char_of (48 + d :: int)) - 48 = d"
  by simp

lemma digits_value_digits_of: "0 \<le> n \<Longrightarrow> digits_value 0 (digits_of n) = n"
proof (induction n rule: digits_of.induct)
  case (1 n)
  show ?case
  proof (cases "n < 10")
    case True
    with 1(2) show ?thesis
      by (subst digits_of.simps) (simp add: digit_char_value)
  next
    case False
    then have "digits_value 0 (digits_of (n div 10)) = n div 10"
      using 1 by simp
    moreover have "of_char (char_of (48 + n mod 10 :: int)) - 48 = n mod 10"
      by (rule digit_char_value) simp_all
    ultimately show ?thesis
      using False by (subst digits_of.simps) (simp add: digits_value_append)
  qed
qed

lemma minus_not_in_digits: "0 \<le> n \<Longrightarrow> CHR ''-'' \<notin> set (digits_of n)"
proof (induction n rule: digits_of.induct)
  case (1 n)
  have d: "char_of (48 + k :: int) \<noteq> CHR ''-''" if "0 \<le> k" "k < 10" for k
  proof
    assume "char_of (48 + k) = CHR ''-''"
    then have "(of_char (char_of (48 + k)) :: int) = of_char (CHR ''-'')" by simp
    with that show False by simp
  qed
  show ?case
  proof (cases "n < 10")
    case True
    with 1(2) d[of n] show ?thesis
      by (subst digits_of.simps) simp
  next
    case False
    with 1 d[of "n mod 10"] show ?thesis
      by (subst digits_of.simps) simp
  qed
qed

lemma digits_of_nonempty: "digits_of n \<noteq> []"
  by (subst digits_of.simps) simp

lemma int_toString_inj: "int_toString a = int_toString b \<longleftrightarrow> a = b"
proof
  assume eq: "int_toString a = int_toString b"
  show "a = b"
  proof (cases "a < 0"; cases "b < 0")
    assume "a < 0" "b < 0"
    with eq have "digits_of (- a) = digits_of (- b)" by (simp add: int_toString_def)
    then have "digits_value 0 (digits_of (- a)) = digits_value 0 (digits_of (- b))" by simp
    with \<open>a < 0\<close> \<open>b < 0\<close> show ?thesis by (simp add: digits_value_digits_of)
  next
    assume "a < 0" "\<not> b < 0"
    with eq have "CHR ''-'' # digits_of (- a) = digits_of b" by (simp add: int_toString_def)
    then have "CHR ''-'' \<in> set (digits_of b)" by (metis list.set_intros(1))
    with \<open>\<not> b < 0\<close> minus_not_in_digits[of b] show ?thesis by simp
  next
    assume "\<not> a < 0" "b < 0"
    with eq have "digits_of a = CHR ''-'' # digits_of (- b)" by (simp add: int_toString_def)
    then have "CHR ''-'' \<in> set (digits_of a)" by (metis list.set_intros(1))
    with \<open>\<not> a < 0\<close> minus_not_in_digits[of a] show ?thesis by simp
  next
    assume "\<not> a < 0" "\<not> b < 0"
    with eq have "digits_of a = digits_of b" by (simp add: int_toString_def)
    then have "digits_value 0 (digits_of a) = digits_value 0 (digits_of b)" by simp
    with \<open>\<not> a < 0\<close> \<open>\<not> b < 0\<close> show ?thesis by (simp add: digits_value_digits_of)
  qed
qed simp

lemma order_number_inj: "order_number a = order_number b \<longleftrightarrow> a = b"
  by (simp add: order_number_def int_toString_inj)

lemma order_number_demo: "order_number 1700000000000 = ''BP-1700000000000''"
  by code_simp


text \<open>
  Claim C9, as stated, for two orders placed in the same millisecond by two customers:
  the two posted orders differ, their order numbers do not.
\<close>

theorem order_number_collision:
  "createOrderMutation 1700000000000 (Some [scenario_item]) demo_form
     \<noteq> createOrderMutation 1700000000000 (Some [scenario_item])
         (demo_form\<lparr>shippingFirstName := ''Bo''\<rparr>)
   \<and> od_orderNumber (createOrderMutation 1700000000000 (Some [scenario_item]) demo_form)
     = od_orderNumber (createOrderMutation 1700000000000 (Some [scenario_item])
         (demo_form\<lparr>shippingFirstName := ''Bo''\<rparr>))"
  by (simp add: createOrderMutation_def Let_def shipping_address_of_def demo_form_def)

text \<open>
  Claim C9, amended. The order number of a posted order is \<open>BP-\<close> followed by the decimal
  digits of the creation timestamp in milliseconds, so two orders have the same order
  number exactly when they were created at the same millisecond: orders created at
  different timestamps have different order numbers.
\<close>

theorem order_number_by_timestamp:
  "od_orderNumber (createOrderMutation now c d) = ''BP-'' @ int_toString now
   \<and> (od_orderNumber (createOrderMutation now c d) = od_orderNumber (createOrderMutation now' c' d')
        \<longleftrightarrow> now = now')
   \<and> od_orderNumber (createOrderMutation 1700000000000 c d) = ''BP-1700000000000''"
  by (simp add: createOrderMutation_def Let_def order_number_inj order_number_demo)
     (simp add: order_number_def)

section \<open>Properties of the quantity selector\<close>

lemma default_selection_fields [simp]:
  "quantity (default_selection p s) = quantity s"
  "isPending (default_selection p s) = isPending s"
  "sent (default_selection p s) = sent s"
  by (simp_all add: default_selection_def Let_def)

lemma quantity_ok_init: "0 \<le> pv_stock p \<Longrightarrow> quantity_ok p (default_selection p detail_init)"
  by (simp add: quantity_ok_def detail_init_def)

lemma quantity_ok_step:
  assumes "0 \<le> pv_stock p" and "quantity_ok p s"
  shows "quantity_ok p (detail_step p s e)"
proof (cases e)
  case ClickMinus
  with assms show ?thesis
    by (auto simp: detail_step_def quantity_ok_def minus_disabled_def)
next
  case ClickPlus
  with assms show ?thesis
    by (auto simp: detail_step_def quantity_ok_def plus_disabled_def)
next
  case ClickAddToCart
  with assms show ?thesis
    by (auto simp: detail_step_def quantity_ok_def add_disabled_def handleAddToCart_def)
qed (use assms in \<open>auto simp: detail_step_def quantity_ok_def\<close>)

lemma quantity_ok_foldl:
  "0 \<le> pv_stock p \<Longrightarrow> quantity_ok p s \<Longrightarrow> quantity_ok p (foldl (detail_step p) s es)"
  by (induction es arbitrary: s) (simp_all add: quantity_ok_step)

text \<open>
  Claim C10. For a product whose stock is not negative, after any sequence of clicks on
  the product detail page the quantity is at least 1; whenever Add to Cart is enabled it is
  at most the stock, and so is the quantity of every add-to-cart request that was sent.
  The minus button is disabled exactly when the quantity is at most 1 and otherwise sets
  \<open>max 1 (quantity - 1)\<close>; the plus button is disabled exactly when the quantity has
  reached the stock; Add to Cart is disabled whenever the stock is 0.
\<close>

theorem quantity_selector_bounds:
  assumes "0 \<le> pv_stock p"
  shows "1 \<le> quantity (detail_run p es)
    \<and> (\<not> add_disabled p (detail_run p es) \<longrightarrow> quantity (detail_run p es) \<le> pv_stock p)
    \<and> (\<forall>r \<in> set (sent (detail_run p es)). 1 \<le> ar_quantity r \<and> ar_quantity r \<le> pv_stock p)
    \<and> (minus_disabled s \<longleftrightarrow> quantity s \<le> 1)
    \<and> quantity (detail_handle p ClickMinus s)
        = (if quantity s \<le> 1 then quantity s else max 1 (quantity s - 1))
    \<and> (plus_disabled p s \<longleftrightarrow> pv_stock p \<le> quantity s)
    \<and> (pv_stock p = 0 \<longrightarrow> add_disabled p s \<and> detail_handle p ClickAddToCart s = s)"
proof -
  have ok: "quantity_ok p (detail_run p es)"
    unfolding detail_run_def
    by (rule quantity_ok_foldl[OF assms quantity_ok_init[OF assms]])
  have a: "1 \<le> quantity (detail_run p es)"
    using ok by (simp add: quantity_ok_def)
  have b: "\<not> add_disabled p (detail_run p es) \<longrightarrow> quantity (detail_run p es) \<le> pv_stock p"
    using ok assms by (auto simp: quantity_ok_def add_disabled_def)
  have c: "\<forall>r \<in> set (sent (detail_run p es)). 1 \<le> ar_quantity r \<and> ar_quantity r \<le> pv_stock p"
    using ok by (simp add: quantity_ok_def)
  have d: "minus_disabled s \<longleftrightarrow> quantity s \<le> 1"
    by (simp add: minus_disabled_def)
  have e: "quantity (detail_handle p ClickMinus s)
        = (if quantity s \<le> 1 then quantity s else max 1 (quantity s - 1))"
    by (simp add: minus_disabled_def)
  have f: "plus_disabled p s \<longleftrightarrow> pv_stock p \<le> quantity s"
    by (simp add: plus_disabled_def)
  have g: "pv_stock p = 0 \<longrightarrow> add_disabled p s \<and> detail_handle p ClickAddToCart s = s"
    by (simp add: add_disabled_def)
  from a b c d e f g show ?thesis by blast
qed

lemma demo_detail_run:
  "detail_run demo_product [ClickPlus, ClickPlus, ClickAddToCart] =
     \<lparr>selectedSize = ''S'', selectedColor = ''Blue'', quantity = 2, isPending = True,
      sent = [\<lparr>ar_productId = 7, ar_quantity = 2, ar_size = ''S'', ar_color = ''Blue'',
               ar_price = ''10.00''\<rparr>]\<rparr>"
  by (simp add: detail_run_def detail_step_def detail_init_def default_selection_def
      demo_product_def plus_disabled_def add_disabled_def handleAddToCart_def Let_def)

theorem quantity_selector_bounds_witness:
  "0 \<le> pv_stock demo_product
   \<and> quantity (detail_run demo_product [ClickPlus, ClickPlus, ClickAddToCart]) = 2
   \<and> map ar_quantity (sent (detail_run demo_product [ClickPlus, ClickPlus, ClickAddToCart])) = [2]
   \<and> 1 \<le> quantity (detail_run demo_product [ClickPlus, ClickPlus, ClickAddToCart])"
  using quantity_selector_bounds [of demo_product "[ClickPlus, ClickPlus, ClickAddToCart]"]
  by (simp add: demo_detail_run) (simp add: demo_product_def)

section \<open>Properties of the order core\<close>

lemma createOrder_Inr:
  assumes "createOrder now userId req s = Inr s1"
  obtains ps where "reserve_all (carts s userId) (products s) = Inr ps"
    and "carts s userId \<noteq> []"
    and "products s1 = ps"
    and "carts s1 = (carts s)(userId := [])"
    and "orders s1 = orders s @ [last (orders s1)]"
    and "o_id (last (orders s1)) = length (orders s)"
    and "o_status (last (orders s1)) = Pending"
    and "o_items (last (orders s1)) = map order_item_of (carts s userId)"
    and "o_subtotal (last (orders s1)) = pr_subtotal (price_cart (carts s userId))"
    and "o_tax (last (orders s1)) = pr_tax (price_cart (carts s userId))"
    and "o_shipping (last (orders s1)) = pr_shipping (price_cart (carts s userId))"
    and "o_total (last (orders s1)) = pr_total (price_cart (carts s userId))"
  using assms
  by (auto simp: createOrder_def Let_def split: if_splits sum.splits)

lemma legal_transition_iff:
  "legal_transition a b \<longleftrightarrow>
     (a, b) \<in> {(Pending, Processing), (Processing, Shipped), (Shipped, Delivered),
               (Pending, Cancelled), (Processing, Cancelled)}"
  by (cases a; cases b) simp_all

lemma updateStatus_legal:
  assumes "orderId < length (orders s)"
    and "legal_transition (o_status (orders s ! orderId)) newStatus"
  shows "\<exists>s'. updateStatus orderId newStatus s = Inr s'
           \<and> length (orders s') = length (orders s)
           \<and> o_status (orders s' ! orderId) = newStatus"
  using assms by (simp add: updateStatus_def Let_def)

lemma updateStatus_illegal:
  assumes "orderId < length (orders s)"
    and "\<not> legal_transition (o_status (orders s ! orderId)) newStatus"
  shows "updateStatus orderId newStatus s = Inl IllegalTransition"
  using assms by (simp add: updateStatus_def Let_def)

lemma releaseStock_commute:
  "releaseStock a x (releaseStock b y ps) = releaseStock b y (releaseStock a x ps)"
  by (cases "a = b") (auto simp: releaseStock_def fun_upd_twist split: option.splits)

lemma release_all_releaseStock:
  "release_all ls (releaseStock a x ps) = releaseStock a x (release_all ls ps)"
proof (induction ls arbitrary: ps)
  case Nil
  show ?case by simp
next
  case (Cons l ls)
  have "releaseStock (oi_productId l) (oi_quantity l) (releaseStock a x ps)
        = releaseStock a x (releaseStock (oi_productId l) (oi_quantity l) ps)"
    by (rule releaseStock_commute)
  then show ?case
    by (simp add: Cons.IH)
qed

lemma reserve_then_release:
  assumes "reserveStock pid qty ps = Inr ps'"
  shows "releaseStock pid qty ps' = ps"
proof (cases "ps pid")
  case None
  with assms show ?thesis by (simp add: reserveStock_def)
next
  case (Some p)
  with assms have ps': "ps' = ps(pid \<mapsto> p\<lparr>p_stock := p_stock p - qty\<rparr>)"
    by (simp add: reserveStock_def split: if_splits)
  have "ps(pid \<mapsto> p) = ps"
    using Some by (rule map_upd_triv)
  then show ?thesis
    by (simp add: ps' releaseStock_def)
qed

lemma reserve_all_then_release_all:
  "reserve_all its ps = Inr ps' \<Longrightarrow> release_all (map order_item_of its) ps' = ps"
proof (induction its arbitrary: ps)
  case Nil
  then show ?case by simp
next
  case (Cons item its)
  from Cons.prems obtain ps1 where
    r1: "reserveStock (cp_id (ci_product item)) (ci_quantity item) ps = Inr ps1"
    and r2: "reserve_all its ps1 = Inr ps'"
    by (auto split: sum.splits)
  have "release_all (map order_item_of (item # its)) ps'
        = releaseStock (cp_id (ci_product item)) (ci_quantity item)
            (release_all (map order_item_of its) ps')"
    by (simp add: release_all_releaseStock order_item_of_def)
  also have "\<dots> = releaseStock (cp_id (ci_product item)) (ci_quantity item) ps1"
    by (simp add: Cons.IH[OF r2])
  also have "\<dots> = ps"
    by (rule reserve_then_release[OF r1])
  finally show ?case .
qed

lemma createOrder_consistent:
  assumes "createOrder now userId req s = Inr s1"
  shows "amounts_consistent (last (orders s1))"
  using assms
  by (elim createOrder_Inr) (simp add: amounts_consistent_def price_cart_fields)

lemma amounts_consistent_status [simp]:
  "amounts_consistent (ord\<lparr>o_status := st\<rparr>) = amounts_consistent ord"
  by (simp add: amounts_consistent_def)

lemma same_but_status_refl [simp]: "same_but_status a a"
  by (simp add: same_but_status_def)

lemma same_but_status_update [simp]: "same_but_status a (a\<lparr>o_status := st\<rparr>)"
  by (simp add: same_but_status_def)

lemma same_but_status_trans:
  assumes "same_but_status a b" and "same_but_status b c"
  shows "same_but_status a c"
proof -
  have "a\<lparr>o_status := o_status c\<rparr> = (a\<lparr>o_status := o_status b\<rparr>)\<lparr>o_status := o_status c\<rparr>"
    by simp
  also have "\<dots> = b\<lparr>o_status := o_status c\<rparr>"
    using assms(1) by (simp only: same_but_status_def)
  also have "\<dots> = c"
    using assms(2) by (simp only: same_but_status_def)
  finally show ?thesis by (simp only: same_but_status_def)
qed

lemma same_but_status_fields:
  assumes "same_but_status a b"
  shows "o_items b = o_items a" "o_subtotal b = o_subtotal a" "o_tax b = o_tax a"
    "o_shipping b = o_shipping a" "o_total b = o_total a" "o_orderNumber b = o_orderNumber a"
    "o_id b = o_id a"
proof -
  have b: "b = a\<lparr>o_status := o_status b\<rparr>"
    using assms by (simp only: same_but_status_def)
  show "o_items b = o_items a" by (subst b) simp
  show "o_subtotal b = o_subtotal a" by (subst b) simp
  show "o_tax b = o_tax a" by (subst b) simp
  show "o_shipping b = o_shipping a" by (subst b) simp
  show "o_total b = o_total a" by (subst b) simp
  show "o_orderNumber b = o_orderNumber a" by (subst b) simp
  show "o_id b = o_id a" by (subst b) simp
qed

lemma apply_operation_consistent:
  assumes "\<forall>ord \<in> set (orders s). amounts_consistent ord"
  shows "\<forall>ord \<in> set (orders (apply_operation s op)). amounts_consistent ord"
proof (cases op)
  case (CreateOrder now userId req)
  show ?thesis
  proof (cases "createOrder now userId req s")
    case (Inl e)
    with CreateOrder assms show ?thesis by simp
  next
    case (Inr s1)
    then have "orders s1 = orders s @ [last (orders s1)]" by (elim createOrder_Inr)
    then have "set (orders s1) = insert (last (orders s1)) (set (orders s))"
      by (metis Un_insert_right append_Nil2 list.simps(15) set_append)
    with createOrder_consistent[OF Inr] assms CreateOrder Inr show ?thesis by simp
  qed
next
  case (UpdateStatus orderId newStatus)
  show ?thesis
  proof (cases "updateStatus orderId newStatus s")
    case (Inl e)
    with UpdateStatus assms show ?thesis by simp
  next
    case (Inr s1)
    then have o1: "orders s1 = (orders s)[orderId := (orders s ! orderId)\<lparr>o_status := newStatus\<rparr>]"
      and len: "orderId < length (orders s)"
      by (auto simp: updateStatus_def Let_def split: if_splits)
    have "set (orders s1) \<subseteq> insert ((orders s ! orderId)\<lparr>o_status := newStatus\<rparr>) (set (orders s))"
      unfolding o1 by (rule set_update_subset_insert)
    moreover have "amounts_consistent ((orders s ! orderId)\<lparr>o_status := newStatus\<rparr>)"
      using assms len by simp
    ultimately show ?thesis using assms UpdateStatus Inr by auto
  qed
qed (use assms in simp_all)

lemma apply_operation_frozen:
  assumes "i < length (orders s)"
  shows "i < length (orders (apply_operation s op))
       \<and> same_but_status (orders s ! i) (orders (apply_operation s op) ! i)"
proof (cases op)
  case (CreateOrder now userId req)
  show ?thesis
  proof (cases "createOrder now userId req s")
    case (Inl e)
    with CreateOrder assms show ?thesis by simp
  next
    case (Inr s1)
    then have o1: "orders s1 = orders s @ [last (orders s1)]" by (elim createOrder_Inr)
    have "i < length (orders s1)" using assms by (subst o1) simp
    moreover have "orders s1 ! i = orders s ! i"
      using assms by (subst o1) (simp add: nth_append)
    ultimately show ?thesis using CreateOrder Inr by simp
  qed
next
  case (UpdateStatus orderId newStatus)
  show ?thesis
  proof (cases "updateStatus orderId newStatus s")
    case (Inl e)
    with UpdateStatus assms show ?thesis by simp
  next
    case (Inr s1)
    then have o1: "orders s1 = (orders s)[orderId := (orders s ! orderId)\<lparr>o_status := newStatus\<rparr>]"
      by (auto simp: updateStatus_def Let_def split: if_splits)
    show ?thesis
      using assms UpdateStatus Inr by (cases "i = orderId") (simp_all add: o1)
  qed
qed (use assms in simp_all)

lemma run_consistent:
  "\<forall>ord \<in> set (orders s). amounts_consistent ord \<Longrightarrow>
   \<forall>ord \<in> set (orders (run ops s)). amounts_consistent ord"
  unfolding run_def
proof (induction ops arbitrary: s)
  case Nil
  then show ?case by simp
next
  case (Cons op ops)
  show ?case
    using Cons.IH[OF apply_operation_consistent[OF Cons.prems]] by simp
qed

lemma run_frozen:
  "i < length (orders s) \<Longrightarrow>
   i < length (orders (run ops s)) \<and> same_but_status (orders s ! i) (orders (run ops s) ! i)"
  unfolding run_def
proof (induction ops arbitrary: s)
  case Nil
  then show ?case by simp
next
  case (Cons op ops)
  have step: "i < length (orders (apply_operation s op))"
    "same_but_status (orders s ! i) (orders (apply_operation s op) ! i)"
    using apply_operation_frozen[OF Cons.prems] by simp_all
  from Cons.IH[OF step(1)] step(2) show ?case
    by (auto intro: same_but_status_trans)
qed

lemma reachable_consistent:
  "i < length (orders (run ops empty_store)) \<Longrightarrow>
   amounts_consistent (orders (run ops empty_store) ! i)"
  using run_consistent[of empty_store ops] by (simp add: empty_store_def)

subsection \<open>Orders keep their lines and amounts\<close>

lemma createOrderMutation_lines:
  "od_items (createOrderMutation now c d) = map order_item_of (case c of None \<Rightarrow> [] | Some l \<Rightarrow> l)"
  "od_subtotal (createOrderMutation now c d) = calc_subtotal (case c of None \<Rightarrow> [] | Some l \<Rightarrow> l)"
  "od_shipping (createOrderMutation now c d) = calc_shipping (od_subtotal (createOrderMutation now c d))"
  "od_tax (createOrderMutation now c d) = calc_tax (od_subtotal (createOrderMutation now c d))"
  "od_total (createOrderMutation now c d)
     = calc_total (od_subtotal (createOrderMutation now c d))
         (od_shipping (createOrderMutation now c d)) (od_tax (createOrderMutation now c d))"
  by (simp_all add: createOrderMutation_def Let_def)

lemma demo_orders: "orders (run demo_ops empty_store) = [demo_order Pending]"
proof -
  have r: "reserve_all [scenario_item] [7 \<mapsto> demo_catalog_product]
     = Inr [7 \<mapsto> demo_catalog_product\<lparr>p_stock := 3\<rparr>]"
    by (simp add: reserveStock_def scenario_item_def demo_catalog_product_def)
  have m: "od_shippingAddress (createOrderMutation n c demo_form) = shipping_address_of demo_form"
    "od_billingAddress (createOrderMutation n c demo_form) = billing_address_of demo_form"
    "od_paymentMethod (createOrderMutation n c demo_form) = Card" for n c
    by (simp_all add: createOrderMutation_def Let_def) (simp add: demo_form_def)
  show ?thesis
    by (simp add: demo_ops_def run_def empty_store_def createOrder_def Let_def r m
        scenario_pricing order_number_demo demo_order_def del: reserve_all.simps)
qed

lemma huge_orders:
  "\<exists>ord. orders (run huge_ops empty_store) = [ord]
     \<and> o_subtotal ord = Num 214748364678525152 \<and> o_tax ord = Num 17179869174282012
     \<and> o_shipping ord = Num 0 \<and> o_total ord = Num 231928233852807168"
proof -
  have r: "\<exists>ps. reserve_all [huge_item]
     [7 \<mapsto> demo_catalog_product\<lparr>p_price := ''99999999.99'', p_stock := 2147483647\<rparr>] = Inr ps"
    by (simp add: reserveStock_def huge_item_def demo_catalog_product_def)
  then obtain ps where ps: "reserve_all [huge_item]
     [7 \<mapsto> demo_catalog_product\<lparr>p_price := ''99999999.99'', p_stock := 2147483647\<rparr>] = Inr ps" ..
  have sh: "calc_shipping (Num 214748364678525152) = Num 0"
    by (simp add: calc_shipping_def)
  show ?thesis
    by (simp add: huge_ops_def run_def empty_store_def createOrder_def Let_def ps
        price_cart_fields huge_subtotal huge_tax sh huge_total del: reserve_all.simps)
qed

subsection \<open>Status transitions\<close>

text \<open>
  Claim C5. For an order of the store, \<open>updateStatus\<close> succeeds and sets the status when
  the transition is legal, and fails with \<open>IllegalTransition\<close> when it is not; the legal
  transitions are pending to processing, processing to shipped, shipped to delivered, and
  pending or processing to cancelled, so delivered and cancelled are terminal. From
  delivered to processing it fails with \<open>IllegalTransition\<close>; from pending to cancelled it
  succeeds.
\<close>

theorem updateStatus_state_machine:
  assumes "orderId < length (orders s)"
  shows "(legal_transition (o_status (orders s ! orderId)) newStatus \<longrightarrow>
            (\<exists>s'. updateStatus orderId newStatus s = Inr s'
                  \<and> o_status (orders s' ! orderId) = newStatus))
       \<and> (\<not> legal_transition (o_status (orders s ! orderId)) newStatus \<longrightarrow>
            updateStatus orderId newStatus s = Inl IllegalTransition)
       \<and> (legal_transition a b \<longleftrightarrow>
            (a, b) \<in> {(Pending, Processing), (Processing, Shipped), (Shipped, Delivered),
                      (Pending, Cancelled), (Processing, Cancelled)})
       \<and> (o_status (orders s ! orderId) = Delivered \<longrightarrow>
            updateStatus orderId Processing s = Inl IllegalTransition)
       \<and> (o_status (orders s ! orderId) = Pending \<longrightarrow>
            (\<exists>s'. updateStatus orderId Cancelled s = Inr s'
                  \<and> o_status (orders s' ! orderId) = Cancelled))"
proof -
  have a: "legal_transition (o_status (orders s ! orderId)) newStatus \<longrightarrow>
            (\<exists>s'. updateStatus orderId newStatus s = Inr s'
                  \<and> o_status (orders s' ! orderId) = newStatus)"
    using updateStatus_legal[OF assms] by blast
  have b: "\<not> legal_transition (o_status (orders s ! orderId)) newStatus \<longrightarrow>
            updateStatus orderId newStatus s = Inl IllegalTransition"
    using updateStatus_illegal[OF assms] by blast
  have c: "o_status (orders s ! orderId) = Delivered \<longrightarrow>
            updateStatus orderId Processing s = Inl IllegalTransition"
    using updateStatus_illegal[OF assms, of Processing] by simp
  have d: "o_status (orders s ! orderId) = Pending \<longrightarrow>
            (\<exists>s'. updateStatus orderId Cancelled s = Inr s'
                  \<and> o_status (orders s' ! orderId) = Cancelled)"
    using updateStatus_legal[OF assms, of Cancelled] by auto
  from a b c d legal_transition_iff[of a b] show ?thesis by blast
qed

text \<open>A delivered order cannot go back to processing.\<close>

theorem updateStatus_state_machine_witness:
  "0 < length (orders (demo_store_ordered Delivered))
   \<and> o_status (orders (demo_store_ordered Delivered) ! 0) = Delivered
   \<and> updateStatus 0 Processing (demo_store_ordered Delivered) = Inl IllegalTransition"
  using updateStatus_state_machine [of 0 "demo_store_ordered Delivered" Processing]
  by (simp add: demo_store_ordered_def demo_order_def)

subsection \<open>Order creation\<close>

text \<open>
  Claim C6. For a user whose cart has no items, \<open>createOrder\<close> fails with \<open>EmptyCart\<close>,
  and the store, its orders included, stays as it was.
\<close>

theorem createOrder_empty_cart:
  assumes "carts s userId = []"
  shows "createOrder now userId req s = Inl EmptyCart
       \<and> apply_operation s (CreateOrder now userId req) = s"
  using assms by (simp add: createOrder_def)

text \<open>The order that the checkout page posts for an empty cart is refused.\<close>

theorem createOrder_empty_cart_witness:
  "carts empty_store 1 = []
   \<and> createOrder 1700000000000 1 (createOrderMutation 1700000000000 None demo_form) empty_store
       = Inl EmptyCart"
  using createOrder_empty_cart [of empty_store 1 1700000000000
      "createOrderMutation 1700000000000 None demo_form"]
  by (simp add: empty_store_def)

lemma demo_reserve:
  "reserve_all [scenario_item] [7 \<mapsto> demo_catalog_product]
     = Inr [7 \<mapsto> demo_catalog_product\<lparr>p_stock := 3\<rparr>]"
  by (simp add: reserveStock_def scenario_item_def demo_catalog_product_def)

lemma demo_createOrder:
  "\<exists>s1. createOrder now 1 req demo_store = Inr s1"
proof -
  have cart: "carts demo_store 1 = [scenario_item]"
    by (simp add: demo_store_def)
  have prods: "products demo_store = [7 \<mapsto> demo_catalog_product]"
    by (simp add: demo_store_def)
  show ?thesis
    unfolding createOrder_def cart prods
    by (simp add: Let_def demo_reserve del: reserve_all.simps)
qed

text \<open>
  Claim C2. The amounts that \<open>createOrder\<close> persists are those the pricing calculator
  gives for the user's stored cart; a request that differs from another only in the
  subtotal, tax, shipping and total it submits has the same outcome, stored amounts
  included.
\<close>

theorem createOrder_ignores_client_totals:
  "createOrder now userId (req\<lparr>od_subtotal := a, od_tax := b, od_shipping := c, od_total := e\<rparr>) s
     = createOrder now userId req s
   \<and> (createOrder now userId req s = Inr s1 \<longrightarrow>
        orders s1 = orders s @ [last (orders s1)]
        \<and> o_subtotal (last (orders s1)) = pr_subtotal (price_cart (carts s userId))
        \<and> o_tax (last (orders s1)) = pr_tax (price_cart (carts s userId))
        \<and> o_shipping (last (orders s1)) = pr_shipping (price_cart (carts s userId))
        \<and> o_total (last (orders s1)) = pr_total (price_cart (carts s userId)))"
proof -
  have same: "createOrder now userId (req\<lparr>od_subtotal := a, od_tax := b, od_shipping := c, od_total := e\<rparr>) s
     = createOrder now userId req s"
    by (simp add: createOrder_def Let_def cong: sum.case_cong if_cong)
  have stored: "createOrder now userId req s = Inr s1 \<longrightarrow>
        orders s1 = orders s @ [last (orders s1)]
        \<and> o_subtotal (last (orders s1)) = pr_subtotal (price_cart (carts s userId))
        \<and> o_tax (last (orders s1)) = pr_tax (price_cart (carts s userId))
        \<and> o_shipping (last (orders s1)) = pr_shipping (price_cart (carts s userId))
        \<and> o_total (last (orders s1)) = pr_total (price_cart (carts s userId))"
  proof
    assume "createOrder now userId req s = Inr s1"
    then show "orders s1 = orders s @ [last (orders s1)]
        \<and> o_subtotal (last (orders s1)) = pr_subtotal (price_cart (carts s userId))
        \<and> o_tax (last (orders s1)) = pr_tax (price_cart (carts s userId))
        \<and> o_shipping (last (orders s1)) = pr_shipping (price_cart (carts s userId))
        \<and> o_total (last (orders s1)) = pr_total (price_cart (carts s userId))"
      by (elim createOrder_Inr) simp
  qed
  from same stored show ?thesis ..
qed

text \<open>A request that claims a total of 1 still stores the calculated total.\<close>

theorem createOrder_ignores_client_totals_witness:
  "\<exists>s1. createOrder 1700000000000 1
           ((createOrderMutation 1700000000000 (Some [scenario_item]) demo_form)
              \<lparr>od_subtotal := Num 0, od_tax := Num 0, od_shipping := Num 0, od_total := Num 1\<rparr>)
           demo_store = Inr s1
        \<and> o_subtotal (last (orders s1)) = Num 20
        \<and> o_total (last (orders s1)) = Num (8891794514289624 / 281474976710656)"
proof -
  let ?req = "createOrderMutation 1700000000000 (Some [scenario_item]) demo_form"
  obtain s1 where s1: "createOrder 1700000000000 1 ?req demo_store = Inr s1"
    using demo_createOrder by blast
  have cart: "carts demo_store 1 = [scenario_item]"
    by (simp add: demo_store_def)
  from createOrder_ignores_client_totals
    [where now = 1700000000000 and userId = 1 and req = ?req and a = "Num 0" and b = "Num 0"
       and c = "Num 0" and e = "Num 1" and s = demo_store and ?s1.0 = s1] s1
  show ?thesis
    by (simp add: cart scenario_pricing)
qed

subsection \<open>Stock reservation and release\<close>

text \<open>What a release does to one product depends on the entry of that product alone.\<close>

lemma releaseStock_local:
  "ps pid = ps' pid \<Longrightarrow> releaseStock a x ps pid = releaseStock a x ps' pid"
  by (cases "a = pid") (auto simp: releaseStock_def split: option.splits)

lemma release_all_local:
  "ps pid = ps' pid \<Longrightarrow> release_all ls ps pid = release_all ls ps' pid"
proof (induction ls arbitrary: ps ps')
  case Nil
  then show ?case by simp
next
  case (Cons l ls)
  have "releaseStock (oi_productId l) (oi_quantity l) ps pid
      = releaseStock (oi_productId l) (oi_quantity l) ps' pid"
    using Cons.prems by (rule releaseStock_local)
  then have "release_all ls (releaseStock (oi_productId l) (oi_quantity l) ps) pid
      = release_all ls (releaseStock (oi_productId l) (oi_quantity l) ps') pid"
    by (rule Cons.IH)
  then show ?case
    by simp
qed

text \<open>
  Claim C8. Cancelling an order restores the stock reserved at its creation: the product
  table after creating an order and cancelling it, directly or after the order went to
  processing, is the product table before the creation. After any operations in between,
  if the order can still be cancelled and the entry of a product is what it was right
  after the creation, cancelling gives that product the entry it had before the creation.
  And \<open>releaseStock\<close> after a successful \<open>reserveStock\<close> of the same quantity gives back
  the table.
\<close>

theorem cancel_restores_stock:
  assumes "createOrder now userId req s = Inr s1"
  shows "(\<exists>s2. updateStatus (length (orders s)) Cancelled s1 = Inr s2 \<and> products s2 = products s)
       \<and> (\<exists>s2 s3. updateStatus (length (orders s)) Processing s1 = Inr s2
              \<and> updateStatus (length (orders s)) Cancelled s2 = Inr s3
              \<and> products s3 = products s)
       \<and> (legal_transition (o_status (orders (run ops s1) ! length (orders s))) Cancelled
            \<and> products (run ops s1) pid = products s1 pid \<longrightarrow>
           (\<exists>s2. updateStatus (length (orders s)) Cancelled (run ops s1) = Inr s2
              \<and> products s2 pid = products s pid))
       \<and> (reserveStock pid qty ps = Inr ps' \<longrightarrow> releaseStock pid qty ps' = ps)"
proof -
  from assms obtain reserved where
    res: "reserve_all (carts s userId) (products s) = Inr reserved"
    and p1: "products s1 = reserved"
    and o1: "orders s1 = orders s @ [last (orders s1)]"
    and st: "o_status (last (orders s1)) = Pending"
    and it: "o_items (last (orders s1)) = map order_item_of (carts s userId)"
    by (rule createOrder_Inr)
  let ?n = "length (orders s)"
  have nth: "orders s1 ! ?n = last (orders s1)"
    using o1 by (metis nth_append_length)
  have len: "?n < length (orders s1)"
    using o1 by (metis length_append_singleton lessI)
  have restored: "release_all (o_items (last (orders s1))) (products s1) = products s"
    using reserve_all_then_release_all[OF res] by (simp add: it p1)
  have a: "\<exists>s2. updateStatus ?n Cancelled s1 = Inr s2 \<and> products s2 = products s"
    using len nth st restored by (simp add: updateStatus_def Let_def)
  have b: "\<exists>s2 s3. updateStatus ?n Processing s1 = Inr s2
              \<and> updateStatus ?n Cancelled s2 = Inr s3 \<and> products s3 = products s"
    using len nth st restored by (simp add: updateStatus_def Let_def)
  have c: "reserveStock pid qty ps = Inr ps' \<longrightarrow> releaseStock pid qty ps' = ps"
    using reserve_then_release by blast
  have d: "legal_transition (o_status (orders (run ops s1) ! ?n)) Cancelled
            \<and> products (run ops s1) pid = products s1 pid \<longrightarrow>
           (\<exists>s2. updateStatus ?n Cancelled (run ops s1) = Inr s2
              \<and> products s2 pid = products s pid)"
  proof
    assume h: "legal_transition (o_status (orders (run ops s1) ! ?n)) Cancelled
            \<and> products (run ops s1) pid = products s1 pid"
    from run_frozen[OF len, of ops]
    have len': "?n < length (orders (run ops s1))"
      and f: "same_but_status (orders s1 ! ?n) (orders (run ops s1) ! ?n)"
      by simp_all
    have items: "o_items (orders (run ops s1) ! ?n) = o_items (last (orders s1))"
      using same_but_status_fields(1)[OF f] by (simp add: nth)
    have "release_all (o_items (last (orders s1))) (products (run ops s1)) pid
        = release_all (o_items (last (orders s1))) (products s1) pid"
      using h by (intro release_all_local) simp
    then have "release_all (o_items (last (orders s1))) (products (run ops s1)) pid
        = products s pid"
      by (simp add: restored)
    then show "\<exists>s2. updateStatus ?n Cancelled (run ops s1) = Inr s2
              \<and> products s2 pid = products s pid"
      using len' h items by (simp add: updateStatus_def Let_def)
  qed
  from a b c d show ?thesis by blast
qed

text \<open>Ordering two of five rompers and cancelling leaves five.\<close>

theorem cancel_restores_stock_witness:
  "\<exists>s1 s2. createOrder 1700000000000 1
             (createOrderMutation 1700000000000 (Some [scenario_item]) demo_form) demo_store = Inr s1
        \<and> updateStatus 0 Cancelled s1 = Inr s2
        \<and> products s2 = products demo_store"
proof -
  let ?req = "createOrderMutation 1700000000000 (Some [scenario_item]) demo_form"
  obtain s1 where s1: "createOrder 1700000000000 1 ?req demo_store = Inr s1"
    using demo_createOrder by blast
  have n: "length (orders demo_store) = 0"
    by (simp add: demo_store_def)
  from cancel_restores_stock [OF s1]
  have "\<exists>s2. updateStatus (length (orders demo_store)) Cancelled s1 = Inr s2
          \<and> products s2 = products demo_store"
    by (rule conjunct1)
  then obtain s2 where "updateStatus 0 Cancelled s1 = Inr s2" "products s2 = products demo_store"
    unfolding n by blast
  with s1 show ?thesis by blast
qed

section \<open>The subtotal of an order and its own lines\<close>

subsection \<open>Decimal prices as \<open>parseFloat\<close> reads them\<close>












subsection \<open>The rounding error of the subtotal\<close>









subsection \<open>The cart of three lines at 0.1, 0.2 and 0.3\<close>















text \<open>
  A decimal that reads back as a finite double lies within half a unit in the last place
  of it: this is all that is used of the digits that \<open>toString\<close> prints.
\<close>

lemma to_number_Num: "to_number d = Num x \<Longrightarrow> x = fl d"
  by (simp add: to_number_def Let_def split: if_splits)

lemma fl_error_half:
  assumes "1 \<le> \<bar>d\<bar>"
  shows "\<bar>fl d - d\<bar> \<le> \<bar>d\<bar> / 2"
proof -
  have pos: "0 < \<bar>d\<bar>" using assms by simp
  have lo: "2 powi ilog2 \<bar>d\<bar> \<le> \<bar>d\<bar>"
    using ilog2_bounds[OF pos] by simp
  have "0 \<le> ilog2 \<bar>d\<bar>"
  proof (rule ccontr)
    assume "\<not> 0 \<le> ilog2 \<bar>d\<bar>"
    then have "ilog2 \<bar>d\<bar> + 1 \<le> 0" by simp
    then have "(2::rat) powi (ilog2 \<bar>d\<bar> + 1) \<le> 2 powi 0"
      by (intro power_int_increasing) simp_all
    with ilog2_bounds[OF pos] assms show False by simp
  qed
  then have ue: "ulp_exponent d = ilog2 \<bar>d\<bar> - 52"
    by (simp add: ulp_exponent_def)
  have "(2::rat) powi (ilog2 \<bar>d\<bar> - 52) \<le> 2 powi ilog2 \<bar>d\<bar>"
    by (intro power_int_increasing) simp_all
  with lo have "(2::rat) powi ulp_exponent d / 2 \<le> \<bar>d\<bar> / 2"
    by (simp add: ue)
  with fl_error_ulp[of d] show ?thesis by linarith
qed

lemma reads_back_error:
  assumes "to_number d = Num x" and "\<bar>x\<bar> < 2 powi k" and "0 \<le> k"
  shows "\<bar>x - d\<bar> \<le> 2 powi (k - 53)"
proof -
  have x: "x = fl d" using assms(1) by (rule to_number_Num)
  have "\<bar>d\<bar> < 2 powi (k + 1)"
  proof (rule ccontr)
    assume "\<not> \<bar>d\<bar> < 2 powi (k + 1)"
    then have big: "2 powi (k + 1) \<le> \<bar>d\<bar>" by simp
    have "(1::rat) \<le> 2 powi (k + 1)"
      using assms(3) by (intro one_le_power_int) simp_all
    with big have "1 \<le> \<bar>d\<bar>" by simp
    then have "\<bar>fl d - d\<bar> \<le> \<bar>d\<bar> / 2" by (rule fl_error_half)
    then have "\<bar>d\<bar> / 2 \<le> \<bar>x\<bar>"
      unfolding x abs_le_iff by (simp add: abs_if split: if_splits)
    moreover have "(2::rat) powi (k + 1) = 2 * 2 powi k"
      using power_int_add[of "2::rat" k 1] by simp
    ultimately have "2 powi k \<le> \<bar>x\<bar>" using big by simp
    with assms(2) show False by simp
  qed
  then have "\<bar>fl d - d\<bar> \<le> 2 powi (k + 1 - 54)"
    using assms(3) by (intro fl_error_bound) simp_all
  then show ?thesis by (simp add: x)
qed

lemma pricing_tolerance_decimal:
  assumes "\<bar>s\<bar> < 2 ^ 40"
    and "to_number ds = Num s"
    and "to_number dh = calc_shipping (Num s)"
    and "to_number dx = calc_tax (Num s)"
    and "to_number dt = calc_total (Num s) (calc_shipping (Num s)) (calc_tax (Num s))"
  shows "\<bar>dt - (ds + dx + dh)\<bar> < 1 / 200"
proof -
  from pricing_tolerance[OF assms(1)] obtain h x t where
    tol: "calc_shipping (Num s) = Num h" "calc_tax (Num s) = Num x"
      "calc_total (Num s) (Num h) (Num x) = Num t" "\<bar>t - (s + x + h)\<bar> \<le> 3 / 8192"
      "0 \<le> h" "h \<le> 10" "\<bar>x\<bar> < 2 ^ 41" "\<bar>t\<bar> < 2 ^ 43"
    by blast
  have es: "\<bar>s - ds\<bar> \<le> 2 powi (40 - 53)"
    using assms(2) assms(1) by (intro reads_back_error) simp_all
  have eh: "\<bar>h - dh\<bar> \<le> 2 powi (4 - 53)"
    using assms(3) tol(5,6) by (intro reads_back_error) (simp_all add: tol(1))
  have ex: "\<bar>x - dx\<bar> \<le> 2 powi (41 - 53)"
    using assms(4) tol(7) by (intro reads_back_error) (simp_all add: tol(2))
  have et: "\<bar>t - dt\<bar> \<le> 2 powi (43 - 53)"
    using assms(5) tol(8) by (intro reads_back_error) (simp_all add: tol(1,2,3))
  have es': "\<bar>s - ds\<bar> \<le> 1 / 8192" using es by simp
  have eh': "\<bar>h - dh\<bar> \<le> 1 / 8192"
  proof -
    have "(2::rat) powi (4 - 53) \<le> 2 powi (- 13)" by (intro power_int_increasing) simp_all
    with eh show ?thesis by simp
  qed
  have ex': "\<bar>x - dx\<bar> \<le> 1 / 4096" using ex by simp
  have et': "\<bar>t - dt\<bar> \<le> 1 / 1024" using et by simp
  show ?thesis
    using tol(4) es' eh' ex' et' unfolding abs_le_iff abs_less_iff by linarith
qed

lemma huge_decimals:
  "to_number 214748364678525150 = Num 214748364678525152"
  "to_number 17179869174282012 = Num 17179869174282012"
  "to_number 231928233852807170 = Num 231928233852807168"
  by code_simp+

text \<open>
  Claim C3, as stated, for an order of 2147483647 pieces at 99999999.99: the total differs
  from the sum of subtotal, tax and shipping by 4; the decimals that the page posts for
  these amounts (the shortest ones that read back as the doubles) differ by 8.
\<close>

theorem order_total_off_by_four:
  "od_subtotal (createOrderMutation 1700000000000 (Some [huge_item]) demo_form)
     = Num 214748364678525152
   \<and> od_tax (createOrderMutation 1700000000000 (Some [huge_item]) demo_form)
     = Num 17179869174282012
   \<and> od_shipping (createOrderMutation 1700000000000 (Some [huge_item]) demo_form) = Num 0
   \<and> od_total (createOrderMutation 1700000000000 (Some [huge_item]) demo_form)
     = Num 231928233852807168
   \<and> (\<exists>ord. orders (run huge_ops empty_store) = [ord]
        \<and> o_subtotal ord = Num 214748364678525152 \<and> o_tax ord = Num 17179869174282012
        \<and> o_shipping ord = Num 0 \<and> o_total ord = Num 231928233852807168)
   \<and> \<not> \<bar>231928233852807168 - (214748364678525152 + 17179869174282012 + 0)\<bar> < (1 / 200 :: rat)
   \<and> to_number 214748364678525150 = Num 214748364678525152
   \<and> to_number 17179869174282012 = Num 17179869174282012
   \<and> to_number 231928233852807170 = Num 231928233852807168
   \<and> \<not> \<bar>231928233852807170 - (214748364678525150 + 17179869174282012 + 0)\<bar> < (1 / 200 :: rat)"
proof -
  have sh: "calc_shipping (Num 214748364678525152) = Num 0"
    by (simp add: calc_shipping_def)
  show ?thesis
    using huge_orders
    by (simp add: createOrderMutation_lines huge_subtotal huge_tax sh huge_total huge_decimals)
qed

text \<open>
  Claim C3, amended. For every order whose subtotal is below \<open>2^40\<close> in magnitude, the
  shipping, the tax and the total are finite and the total is within half a cent of
  subtotal plus tax plus shipping; this holds for the order that the checkout page posts,
  also when each amount is taken as any decimal that reads back as its double (as the
  digits printed by \<open>toString\<close> do), and for every order of a store reached from the empty
  one. Whatever operations follow, the order is still there with the same subtotal, tax,
  shipping and total.
\<close>

theorem order_total_within_tolerance:
  assumes "\<bar>s\<bar> < 2 ^ 40"
  shows "(od_subtotal (createOrderMutation now c d) = Num s \<longrightarrow>
          (\<exists>h x t. od_shipping (createOrderMutation now c d) = Num h
             \<and> od_tax (createOrderMutation now c d) = Num x
             \<and> od_total (createOrderMutation now c d) = Num t
             \<and> \<bar>t - (s + x + h)\<bar> < 1 / 200))
       \<and> (od_subtotal (createOrderMutation now c d) = Num s
            \<and> to_number ds = od_subtotal (createOrderMutation now c d)
            \<and> to_number dx = od_tax (createOrderMutation now c d)
            \<and> to_number dh = od_shipping (createOrderMutation now c d)
            \<and> to_number dt = od_total (createOrderMutation now c d) \<longrightarrow>
          \<bar>dt - (ds + dx + dh)\<bar> < 1 / 200)
       \<and> (i < length (orders (run ops empty_store))
            \<and> o_subtotal (orders (run ops empty_store) ! i) = Num s \<longrightarrow>
          (\<exists>h x t. o_shipping (orders (run ops empty_store) ! i) = Num h
             \<and> o_tax (orders (run ops empty_store) ! i) = Num x
             \<and> o_total (orders (run ops empty_store) ! i) = Num t
             \<and> \<bar>t - (s + x + h)\<bar> < 1 / 200)
          \<and> i < length (orders (run later (run ops empty_store)))
          \<and> o_subtotal (orders (run later (run ops empty_store)) ! i)
              = o_subtotal (orders (run ops empty_store) ! i)
          \<and> o_tax (orders (run later (run ops empty_store)) ! i)
              = o_tax (orders (run ops empty_store) ! i)
          \<and> o_shipping (orders (run later (run ops empty_store)) ! i)
              = o_shipping (orders (run ops empty_store) ! i)
          \<and> o_total (orders (run later (run ops empty_store)) ! i)
              = o_total (orders (run ops empty_store) ! i))"
proof -
  from pricing_tolerance[OF assms] obtain h x t where
    tol: "calc_shipping (Num s) = Num h" "calc_tax (Num s) = Num x"
      "calc_total (Num s) (Num h) (Num x) = Num t" "\<bar>t - (s + x + h)\<bar> \<le> 3 / 8192"
    by blast
  have close: "\<bar>t - (s + x + h)\<bar> < 1 / 200"
    using tol(4) by simp
  have client: "od_subtotal (createOrderMutation now c d) = Num s \<longrightarrow>
          (\<exists>h x t. od_shipping (createOrderMutation now c d) = Num h
             \<and> od_tax (createOrderMutation now c d) = Num x
             \<and> od_total (createOrderMutation now c d) = Num t
             \<and> \<bar>t - (s + x + h)\<bar> < 1 / 200)"
  proof
    assume sub: "od_subtotal (createOrderMutation now c d) = Num s"
    have "od_shipping (createOrderMutation now c d) = Num h"
      by (subst createOrderMutation_lines(3)) (simp only: sub tol)
    moreover have "od_tax (createOrderMutation now c d) = Num x"
      by (subst createOrderMutation_lines(4)) (simp only: sub tol)
    ultimately have "od_total (createOrderMutation now c d) = Num t"
      by (subst createOrderMutation_lines(5)) (simp only: sub tol)
    with \<open>od_shipping (createOrderMutation now c d) = Num h\<close>
      \<open>od_tax (createOrderMutation now c d) = Num x\<close> close
    show "\<exists>h x t. od_shipping (createOrderMutation now c d) = Num h
             \<and> od_tax (createOrderMutation now c d) = Num x
             \<and> od_total (createOrderMutation now c d) = Num t
             \<and> \<bar>t - (s + x + h)\<bar> < 1 / 200"
      by blast
  qed
  have decimal: "od_subtotal (createOrderMutation now c d) = Num s
            \<and> to_number ds = od_subtotal (createOrderMutation now c d)
            \<and> to_number dx = od_tax (createOrderMutation now c d)
            \<and> to_number dh = od_shipping (createOrderMutation now c d)
            \<and> to_number dt = od_total (createOrderMutation now c d) \<longrightarrow>
          \<bar>dt - (ds + dx + dh)\<bar> < 1 / 200"
  proof
    assume h: "od_subtotal (createOrderMutation now c d) = Num s
            \<and> to_number ds = od_subtotal (createOrderMutation now c d)
            \<and> to_number dx = od_tax (createOrderMutation now c d)
            \<and> to_number dh = od_shipping (createOrderMutation now c d)
            \<and> to_number dt = od_total (createOrderMutation now c d)"
    then have sub: "od_subtotal (createOrderMutation now c d) = Num s" by simp
    have a: "to_number ds = Num s" using h by simp
    have b: "to_number dh = calc_shipping (Num s)"
      using h by (simp add: createOrderMutation_lines(3)[of now c d])
    have e: "to_number dx = calc_tax (Num s)"
      using h by (simp add: createOrderMutation_lines(4)[of now c d])
    have f: "to_number dt = calc_total (Num s) (calc_shipping (Num s)) (calc_tax (Num s))"
    proof -
      have "od_total (createOrderMutation now c d)
          = calc_total (Num s) (calc_shipping (Num s)) (calc_tax (Num s))"
        by (subst createOrderMutation_lines(5), subst createOrderMutation_lines(4),
            subst createOrderMutation_lines(3)) (simp only: sub)
      with h show ?thesis by simp
    qed
    show "\<bar>dt - (ds + dx + dh)\<bar> < 1 / 200"
      using assms a b e f by (rule pricing_tolerance_decimal)
  qed
  have stored: "i < length (orders (run ops empty_store))
            \<and> o_subtotal (orders (run ops empty_store) ! i) = Num s \<longrightarrow>
          (\<exists>h x t. o_shipping (orders (run ops empty_store) ! i) = Num h
             \<and> o_tax (orders (run ops empty_store) ! i) = Num x
             \<and> o_total (orders (run ops empty_store) ! i) = Num t
             \<and> \<bar>t - (s + x + h)\<bar> < 1 / 200)
          \<and> i < length (orders (run later (run ops empty_store)))
          \<and> o_subtotal (orders (run later (run ops empty_store)) ! i)
              = o_subtotal (orders (run ops empty_store) ! i)
          \<and> o_tax (orders (run later (run ops empty_store)) ! i)
              = o_tax (orders (run ops empty_store) ! i)
          \<and> o_shipping (orders (run later (run ops empty_store)) ! i)
              = o_shipping (orders (run ops empty_store) ! i)
          \<and> o_total (orders (run later (run ops empty_store)) ! i)
              = o_total (orders (run ops empty_store) ! i)"
  proof
    assume "i < length (orders (run ops empty_store))
            \<and> o_subtotal (orders (run ops empty_store) ! i) = Num s"
    then have i: "i < length (orders (run ops empty_store))"
      and sub: "o_subtotal (orders (run ops empty_store) ! i) = Num s"
      by simp_all
    let ?ord = "orders (run ops empty_store) ! i"
    have cons: "amounts_consistent ?ord"
      using i by (rule reachable_consistent)
    have a: "o_shipping ?ord = Num h"
      using cons by (simp add: amounts_consistent_def sub tol)
    have b: "o_tax ?ord = Num x"
      using cons by (simp add: amounts_consistent_def sub tol)
    have e: "o_total ?ord = Num t"
      using cons by (simp add: amounts_consistent_def sub tol a b)
    from run_frozen[OF i, of later]
    have len: "i < length (orders (run later (run ops empty_store)))"
      and f: "same_but_status ?ord (orders (run later (run ops empty_store)) ! i)"
      by simp_all
    from a b e close len same_but_status_fields(2-5)[OF f]
    show "(\<exists>h x t. o_shipping ?ord = Num h \<and> o_tax ?ord = Num x \<and> o_total ?ord = Num t
             \<and> \<bar>t - (s + x + h)\<bar> < 1 / 200)
          \<and> i < length (orders (run later (run ops empty_store)))
          \<and> o_subtotal (orders (run later (run ops empty_store)) ! i) = o_subtotal ?ord
          \<and> o_tax (orders (run later (run ops empty_store)) ! i) = o_tax ?ord
          \<and> o_shipping (orders (run later (run ops empty_store)) ! i) = o_shipping ?ord
          \<and> o_total (orders (run later (run ops empty_store)) ! i) = o_total ?ord"
      by blast
  qed
  from client decimal stored show ?thesis by blast
qed

text \<open>
  The order of the scenario: as posted, with the decimals 20, 1.6, 9.99 and
  31.590000000000003 that the page sends, and as stored, before and after later
  operations.
\<close>

theorem order_total_within_tolerance_witness:
  "\<bar>20 :: rat\<bar> < 2 ^ 40
   \<and> od_subtotal (createOrderMutation 1700000000000 (Some [scenario_item]) demo_form) = Num 20
   \<and> (\<exists>h x t. od_shipping (createOrderMutation 1700000000000 (Some [scenario_item]) demo_form) = Num h
         \<and> od_tax (createOrderMutation 1700000000000 (Some [scenario_item]) demo_form) = Num x
         \<and> od_total (createOrderMutation 1700000000000 (Some [scenario_item]) demo_form) = Num t
         \<and> \<bar>t - (20 + x + h)\<bar> < 1 / 200)
   \<and> to_number 20 = od_subtotal (createOrderMutation 1700000000000 (Some [scenario_item]) demo_form)
   \<and> to_number (8 / 5) = od_tax (createOrderMutation 1700000000000 (Some [scenario_item]) demo_form)
   \<and> to_number (999 / 100)
       = od_shipping (createOrderMutation 1700000000000 (Some [scenario_item]) demo_form)
   \<and> to_number (31590000000000003 / 1000000000000000)
       = od_total (createOrderMutation 1700000000000 (Some [scenario_item]) demo_form)
   \<and> \<bar>31590000000000003 / 1000000000000000 - (20 + 8 / 5 + 999 / 100)\<bar> < (1 / 200 :: rat)
   \<and> 0 < length (orders (run demo_ops empty_store))
   \<and> o_subtotal (orders (run demo_ops empty_store) ! 0) = Num 20
   \<and> o_total (orders (run demo_later (run demo_ops empty_store)) ! 0)
       = Num (8891794514289624 / 281474976710656)"
proof -
  have small: "\<bar>20 :: rat\<bar> < 2 ^ 40" by simp
  let ?od = "createOrderMutation 1700000000000 (Some [scenario_item]) demo_form"
  have sub: "od_subtotal ?od = Num 20"
    by (simp add: createOrderMutation_lines scenario_subtotal)
  have dec: "to_number 20 = od_subtotal ?od" "to_number (8 / 5) = od_tax ?od"
    "to_number (999 / 100) = od_shipping ?od"
    "to_number (31590000000000003 / 1000000000000000) = od_total ?od"
    by (simp_all add: createOrderMutation_amounts scenario_pricing literal_20 literal_1_60
        literal_9_99 literal_31_590000000000003)
  have stored: "0 < length (orders (run demo_ops empty_store))"
    "o_subtotal (orders (run demo_ops empty_store) ! 0) = Num 20"
    "o_total (orders (run demo_ops empty_store) ! 0) = Num (8891794514289624 / 281474976710656)"
    by (simp_all add: demo_orders demo_order_def)
  from order_total_within_tolerance [OF small, where now = 1700000000000
      and c = "Some [scenario_item]" and d = demo_form and i = 0 and ops = demo_ops
      and later = demo_later and ds = 20 and dx = "8 / 5" and dh = "999 / 100"
      and dt = "31590000000000003 / 1000000000000000"] sub dec stored small
  show ?thesis by simp
qed

end
